theory Spec2Isabelle
  imports Main "HOL-Library.Multiset" "HOL-Library.Sublist"
begin

section \<open>Python values shared by the two modules\<close>

text \<open>
  The particle data handed around by \<^verbatim>\<open>ParticleSpecies\<close> is a Python dictionary
  from component names to pairs \<^verbatim>\<open>(array, metadata)\<close>, where the metadata is again
  a dictionary. The arrays are opaque here (type \<open>'a\<close>); a metadata entry is either a
  string (as \<^verbatim>\<open>md['units']\<close> is) or some other opaque value (type \<open>'v\<close>).
\<close>

datatype 'v mdval = MStr string | MOther 'v

type_synonym 'v metadata = "string \<rightharpoonup> 'v mdval"

type_synonym ('a, 'v) pdata = "string \<rightharpoonup> ('a \<times> 'v metadata)"

text \<open>
  Every failure of the source is a \<^verbatim>\<open>raise\<close>. The three \<^verbatim>\<open>ValueError\<close>s
  written out in the source carry a formatted message; the message is kept here by its
  parts instead of as one formatted string:
  \<^item> \<open>LengthMismatch len_comp len_units\<close> is
    \<^verbatim>\<open>'Lenght of components list ({}) and data units list ({}) do not match.'\<close>;
  \<^item> \<open>ComponentNotFound component available_comps\<close> is
    \<^verbatim>\<open>"Component '{}' not found. Available components are {}."\<close>;
  \<^item> \<open>NotInList x\<close> is the message of \<^verbatim>\<open>list.index\<close>, \<^verbatim>\<open>'{} is not in list'\<close>;
  \<^item> \<open>UnknownDataName n\<close> is \<^verbatim>\<open>'Unknown data name {}.'\<close>;
  \<^item> \<open>InvalidLiteral s\<close> is the message of \<^verbatim>\<open>int(s)\<close>,
    \<^verbatim>\<open>'invalid literal for int() with base 10: {}'\<close>.
\<close>

datatype message =
    LengthMismatch nat nat
  | ComponentNotFound string "string list"
  | NotInList int
  | UnknownDataName string
  | InvalidLiteral string

datatype error =
    ValueError message
  | IndexError
  | KeyError string
  | NotADirectoryError string
  | UnknownDerivedQuantityError string
  | ExternalError string

section \<open>The derived-data registry and the particle species\<close>

text \<open>
  An entry of \<^verbatim>\<open>derived_particle_data_definitions\<close>: the dictionary with the keys
  \<^verbatim>\<open>'name'\<close>, \<^verbatim>\<open>'units'\<close>, \<^verbatim>\<open>'requirements'\<close> and \<^verbatim>\<open>'recipe'\<close> that
  \<^verbatim>\<open>particle_species.py\<close> reads. The table itself is not part of the sources at hand,
  so every function that consults it takes it as the parameter \<open>registry\<close>.
\<close>

record ('a, 'v) data_def =
  dd_name :: string
  dd_units :: string
  dd_requirements :: "string list"
  dd_recipe :: "('a, 'v) pdata \<Rightarrow> 'a"

text \<open>
  The attributes of a \<^verbatim>\<open>ParticleSpecies\<close> object. The reader and the unit converter
  are objects of other modules; they are modelled by the one method each that the species
  calls, as a function that may fail.
\<close>

record ('a, 'v) particle_species =
  species_name :: string
  components_in_file :: "string list"
  derived_components :: "string list"
  timesteps :: "int list"
  species_files :: "string list"
  read_particle_data :: "string \<Rightarrow> string \<Rightarrow> string list \<Rightarrow> error + ('a, 'v) pdata"
  convert_particle_data_units ::
    "('a, 'v) pdata \<Rightarrow> (string \<rightharpoonup> string) \<Rightarrow> string option \<Rightarrow> error + ('a, 'v) pdata"

text \<open>
  \<^verbatim>\<open>_determine_available_derived_components\<close>: the loop over the registry, appending
  the name of every definition whose requirements all occur in \<^verbatim>\<open>components_in_file\<close>
  (\<^verbatim>\<open>set(component['requirements']).issubset(components_in_file)\<close>).
\<close>

fun determine_available_derived_components ::
  "('a, 'v) data_def list \<Rightarrow> string list \<Rightarrow> string list" where
  "determine_available_derived_components [] components = []"
| "determine_available_derived_components (component # rest) components =
     (if set (dd_requirements component) \<subseteq> set components
      then dd_name component # determine_available_derived_components rest components
      else determine_available_derived_components rest components)"

text \<open>\<^verbatim>\<open>ParticleSpecies.__init__\<close>.\<close>

definition init_species ::
  "('a, 'v) data_def list \<Rightarrow> string \<Rightarrow> string list \<Rightarrow> int list \<Rightarrow> string list \<Rightarrow>
   (string \<Rightarrow> string \<Rightarrow> string list \<Rightarrow> error + ('a, 'v) pdata) \<Rightarrow>
   (('a, 'v) pdata \<Rightarrow> (string \<rightharpoonup> string) \<Rightarrow> string option \<Rightarrow> error + ('a, 'v) pdata) \<Rightarrow>
   ('a, 'v) particle_species" where
  "init_species registry name components species_timesteps files data_reader unit_converter =
     \<lparr> species_name = name,
       components_in_file = components,
       derived_components = determine_available_derived_components registry components,
       timesteps = species_timesteps,
       species_files = files,
       read_particle_data = data_reader,
       convert_particle_data_units = unit_converter \<rparr>"

text \<open>
  The reader and the unit converter are other modules' code. To be able to say what the
  species asks of them, and in which order, every function below returns, beside its
  result or error, the list of the calls it made to them, oldest first.
\<close>

datatype ('a, 'v) call =
    ReadCall string string "string list"
  | ConvertCall "('a, 'v) pdata" "string \<rightharpoonup> string" "string option"

type_synonym ('r, 'a, 'v) logged = "(error + 'r) \<times> ('a, 'v) call list"

text \<open>Sequencing: an error ends the computation, and the calls made so far are kept.\<close>

definition bind_logged ::
  "('r, 'a, 'v) logged \<Rightarrow> ('r \<Rightarrow> ('s, 'a, 'v) logged) \<Rightarrow> ('s, 'a, 'v) logged" where
  "bind_logged m f =
     (case m of
        (Inl e, calls) \<Rightarrow> (Inl e, calls)
      | (Inr x, calls) \<Rightarrow> (case f x of (r, calls') \<Rightarrow> (r, calls @ calls')))"

text \<open>\<^verbatim>\<open>dict(pairs)\<close>: a later pair with the same key replaces an earlier one.\<close>

definition py_dict :: "('k \<times> 'w) list \<Rightarrow> 'k \<rightharpoonup> 'w" where
  "py_dict kvs = map_of (rev kvs)"

text \<open>\<^verbatim>\<open>list.index(x)\<close>: the position of the first occurrence, or a \<^verbatim>\<open>ValueError\<close>.\<close>

fun list_index :: "int list \<Rightarrow> int \<Rightarrow> error + nat" where
  "list_index [] x = Inl (ValueError (NotInList x))"
| "list_index (y # ys) x =
     (if y = x then Inr 0
      else (case list_index ys x of Inl e \<Rightarrow> Inl e | Inr i \<Rightarrow> Inr (Suc i)))"

text \<open>
  \<^verbatim>\<open>get_list_of_available_components\<close>, on the values of the two lists.
  \<^verbatim>\<open>list.remove\<close> deletes the first occurrence only.
\<close>

definition get_list_of_available_components ::
  "('a, 'v) particle_species \<Rightarrow> bool \<Rightarrow> string list" where
  "get_list_of_available_components sp include_tags =
     (let all_components = components_in_file sp @ derived_components sp
      in if \<not> include_tags \<and> ''tag'' \<in> set all_components
         then remove1 ''tag'' all_components
         else all_components)"

text \<open>
  \<^verbatim>\<open>_get_file_path\<close>. \<^verbatim>\<open>self.species_files[ts_i]\<close> raises \<^verbatim>\<open>IndexError\<close> when the
  list of files is shorter than the list of time steps.
\<close>

definition get_file_path :: "('a, 'v) particle_species \<Rightarrow> int \<Rightarrow> error + string" where
  "get_file_path sp time_step =
     (case list_index (timesteps sp) time_step of
        Inl e \<Rightarrow> Inl e
      | Inr ts_i \<Rightarrow>
          (if ts_i < length (species_files sp) then Inr (species_files sp ! ts_i)
           else Inl IndexError))"

text \<open>\<^verbatim>\<open>_convert_data_units\<close>: the converter is called only when data units are given.\<close>

definition convert_data_units ::
  "('a, 'v) particle_species \<Rightarrow> ('a, 'v) pdata \<Rightarrow> string list \<Rightarrow> string list option \<Rightarrow>
   string option \<Rightarrow> (('a, 'v) pdata, 'a, 'v) logged" where
  "convert_data_units sp data components_list data_units time_units =
     (case data_units of
        None \<Rightarrow> (Inr data, [])
      | Some units \<Rightarrow>
          (let units_dict = py_dict (zip components_list units)
           in (convert_particle_data_units sp data units_dict time_units,
               [ConvertCall data units_dict time_units])))"

text \<open>\<^verbatim>\<open>_get_file_data\<close>: read, then convert.\<close>

definition get_file_data ::
  "('a, 'v) particle_species \<Rightarrow> string \<Rightarrow> string list \<Rightarrow> string list option \<Rightarrow>
   string option \<Rightarrow> (('a, 'v) pdata, 'a, 'v) logged" where
  "get_file_data sp file_path components_list data_units time_units =
     bind_logged
       (read_particle_data sp file_path (species_name sp) components_list,
        [ReadCall file_path (species_name sp) components_list])
       (\<lambda>data. convert_data_units sp data components_list data_units time_units)"

text \<open>
  Modelled from the spec: \<^verbatim>\<open>get_definition\<close> of the module
  \<^verbatim>\<open>derived_particle_data_definitions\<close>, which is not among the sources. The spec has
  it return the definition registered under the name and fail with an
  \<^verbatim>\<open>UnknownDerivedQuantityError\<close> when there is none.
\<close>

fun get_definition :: "('a, 'v) data_def list \<Rightarrow> string \<Rightarrow> error + ('a, 'v) data_def" where
  "get_definition [] n = Inl (UnknownDerivedQuantityError n)"
| "get_definition (d # ds) n = (if dd_name d = n then Inr d else get_definition ds n)"

text \<open>
  The loop of \<^verbatim>\<open>_calculate_derived_data\<close>, with \<^verbatim>\<open>derived_data_dict\<close> as the
  accumulator. \<^verbatim>\<open>required_data_list[0]\<close> raises \<^verbatim>\<open>IndexError\<close> on a definition
  without requirements, and \<^verbatim>\<open>required_data[...]\<close> raises \<^verbatim>\<open>KeyError\<close> when the
  data that came back has no entry for the first requirement. The assignment
  \<^verbatim>\<open>derived_data_md['units'] = data_units\<close> updates the metadata dictionary of the
  first requirement in place; that dictionary lives in the local \<^verbatim>\<open>required_data\<close>
  only, and the recipe has already run, so the update is visible in the derived entry alone.
\<close>

fun derived_data_loop ::
  "('a, 'v) data_def list \<Rightarrow> ('a, 'v) particle_species \<Rightarrow> string \<Rightarrow> string option \<Rightarrow>
   string list \<Rightarrow> ('a, 'v) pdata \<Rightarrow> (('a, 'v) pdata, 'a, 'v) logged" where
  "derived_data_loop registry sp file_path time_units [] derived_data_dict =
     (Inr derived_data_dict, [])"
| "derived_data_loop registry sp file_path time_units (name # rest) derived_data_dict =
     (case get_definition registry name of
        Inl e \<Rightarrow> (Inl e, [])
      | Inr data_def \<Rightarrow>
          (let required_data_list = dd_requirements data_def;
               required_data_units = replicate (length required_data_list) ''SI''
           in bind_logged
                (get_file_data sp file_path required_data_list (Some required_data_units)
                   time_units)
                (\<lambda>required_data.
                   let derived_data = dd_recipe data_def required_data
                   in (case required_data_list of
                         [] \<Rightarrow> (Inl IndexError, [])
                       | first_req # _ \<Rightarrow>
                           (case required_data first_req of
                              None \<Rightarrow> (Inl (KeyError first_req), [])
                            | Some (_, md) \<Rightarrow>
                                derived_data_loop registry sp file_path time_units rest
                                  (derived_data_dict(dd_name data_def \<mapsto>
                                     (derived_data,
                                      md(''units'' \<mapsto> MStr (dd_units data_def))))))))))"

text \<open>\<^verbatim>\<open>_calculate_derived_data\<close>: the loop, then the conversion to the target units.\<close>

definition calculate_derived_data ::
  "('a, 'v) data_def list \<Rightarrow> ('a, 'v) particle_species \<Rightarrow> string \<Rightarrow> string list \<Rightarrow>
   string list option \<Rightarrow> string option \<Rightarrow> (('a, 'v) pdata, 'a, 'v) logged" where
  "calculate_derived_data registry sp file_path data_list target_data_units time_units =
     bind_logged
       (derived_data_loop registry sp file_path time_units data_list Map.empty)
       (\<lambda>derived_data_dict.
          convert_data_units sp derived_data_dict data_list target_data_units time_units)"

text \<open>
  The loop of \<^verbatim>\<open>get_data\<close> that separates the components to read from the derived
  ones. The four accumulators are \<^verbatim>\<open>comp_to_read\<close>, \<^verbatim>\<open>derived_components\<close>,
  \<^verbatim>\<open>comp_to_read_units\<close> and \<^verbatim>\<open>derived_components_units\<close>; the last two are
  appended to only when \<^verbatim>\<open>data_units\<close> is given (they stay empty otherwise, and
  \<open>units_result\<close> below turns them into \<^verbatim>\<open>None\<close> then). \<^verbatim>\<open>data_units[i]\<close> raises
  \<^verbatim>\<open>IndexError\<close> out of range.
\<close>

definition append_unit :: "string list option \<Rightarrow> nat \<Rightarrow> string list \<Rightarrow> error + string list" where
  "append_unit data_units i units_acc =
     (case data_units of
        None \<Rightarrow> Inr units_acc
      | Some units \<Rightarrow>
          (if i < length units then Inr (units_acc @ [units ! i]) else Inl IndexError))"

fun separate_components ::
  "('a, 'v) particle_species \<Rightarrow> string list option \<Rightarrow> nat \<Rightarrow> string list \<Rightarrow>
   string list \<times> string list \<times> string list \<times> string list \<Rightarrow>
   error + string list \<times> string list \<times> string list \<times> string list" where
  "separate_components sp data_units i [] acc = Inr acc"
| "separate_components sp data_units i (component # rest)
     (comp_to_read, derived, comp_to_read_units, derived_units) =
     (if component \<in> set (components_in_file sp) then
        (case append_unit data_units i comp_to_read_units of
           Inl e \<Rightarrow> Inl e
         | Inr units' \<Rightarrow>
             separate_components sp data_units (Suc i) rest
               (comp_to_read @ [component], derived, units', derived_units))
      else if component \<in> set (derived_components sp) then
        (case append_unit data_units i derived_units of
           Inl e \<Rightarrow> Inl e
         | Inr units' \<Rightarrow>
             separate_components sp data_units (Suc i) rest
               (comp_to_read, derived @ [component], comp_to_read_units, units'))
      else Inl (ValueError
                  (ComponentNotFound component (get_list_of_available_components sp False))))"

definition units_result :: "string list option \<Rightarrow> string list \<Rightarrow> string list option" where
  "units_result data_units units_acc =
     (case data_units of None \<Rightarrow> None | Some _ \<Rightarrow> Some units_acc)"

text \<open>\<^verbatim>\<open>get_data\<close>.\<close>

definition get_data ::
  "('a, 'v) data_def list \<Rightarrow> ('a, 'v) particle_species \<Rightarrow> int \<Rightarrow> string list \<Rightarrow>
   string list option \<Rightarrow> string option \<Rightarrow> (('a, 'v) pdata, 'a, 'v) logged" where
  "get_data registry sp time_step components_list data_units time_units =
     (case (case data_units of
              None \<Rightarrow> None
            | Some units \<Rightarrow>
                (if length components_list \<noteq> length units
                 then Some (LengthMismatch (length components_list) (length units))
                 else None)) of
        Some mismatch \<Rightarrow> (Inl (ValueError mismatch), [])
      | None \<Rightarrow>
          (case separate_components sp data_units 0 components_list ([], [], [], []) of
             Inl e \<Rightarrow> (Inl e, [])
           | Inr (comp_to_read, derived, comp_to_read_units, derived_units) \<Rightarrow>
               (case get_file_path sp time_step of
                  Inl e \<Rightarrow> (Inl e, [])
                | Inr file_path \<Rightarrow>
                    bind_logged
                      (get_file_data sp file_path comp_to_read
                         (units_result data_units comp_to_read_units) time_units)
                      (\<lambda>folder_data.
                         bind_logged
                           (calculate_derived_data registry sp file_path derived
                              (units_result data_units derived_units) time_units)
                           (\<lambda>derived_data. (Inr (folder_data ++ derived_data), []))))))"

text \<open>
  \<^verbatim>\<open>get_list_of_available_components\<close> once more, this time on list objects in a
  store, to follow which object \<^verbatim>\<open>all_components.remove('tag')\<close> changes. The store
  is the list of all list objects, an object's reference is its position.
  \<^verbatim>\<open>a + b\<close> allocates a new list object; \<^verbatim>\<open>remove\<close> updates an object in place.
\<close>

type_synonym store = "string list list"

definition list_concat :: "store \<Rightarrow> nat \<Rightarrow> nat \<Rightarrow> store \<times> nat" where
  "list_concat h a b = (h @ [h ! a @ h ! b], length h)"

definition list_remove :: "store \<Rightarrow> nat \<Rightarrow> string \<Rightarrow> store" where
  "list_remove h r x = h[r := remove1 x (h ! r)]"

definition get_list_of_available_components_obj ::
  "store \<Rightarrow> nat \<Rightarrow> nat \<Rightarrow> bool \<Rightarrow> store \<times> nat" where
  "get_list_of_available_components_obj h components_in_file_ref derived_components_ref
     include_tags =
     (case list_concat h components_in_file_ref derived_components_ref of
        (h1, all_components) \<Rightarrow>
          (if \<not> include_tags \<and> ''tag'' \<in> set (h1 ! all_components)
           then (list_remove h1 all_components ''tag'', all_components)
           else (h1, all_components)))"

text \<open>The store after a sequence of calls, one for each given value of \<^verbatim>\<open>include_tags\<close>.\<close>

fun available_components_calls :: "store \<Rightarrow> nat \<Rightarrow> nat \<Rightarrow> bool list \<Rightarrow> store" where
  "available_components_calls h cr dr [] = h"
| "available_components_calls h cr dr (include_tags # rest) =
     available_components_calls
       (fst (get_list_of_available_components_obj h cr dr include_tags)) cr dr rest"

text \<open>The species as \<^verbatim>\<open>get_data\<close> sees it, its two lists read from the store.\<close>

definition species_in_store ::
  "store \<Rightarrow> nat \<Rightarrow> nat \<Rightarrow> ('a, 'v) particle_species \<Rightarrow> ('a, 'v) particle_species" where
  "species_in_store h cr dr sp = sp\<lparr>components_in_file := h ! cr, derived_components := h ! dr\<rparr>"

section \<open>The OSIRIS folder scanner\<close>

subsection \<open>Strings and paths\<close>

definition startswith :: "string \<Rightarrow> string \<Rightarrow> bool" where
  "startswith s p = (take (length p) s = p)"

definition endswith :: "string \<Rightarrow> string \<Rightarrow> bool" where
  "endswith s suf = (length suf \<le> length s \<and> drop (length s - length suf) s = suf)"

text \<open>
  \<^verbatim>\<open>s[-a:-b]\<close> for positive \<open>a\<close> and \<open>b\<close>: both ends are counted from the end of the
  string and stop at its start.
\<close>

definition slice_from_end :: "string \<Rightarrow> nat \<Rightarrow> nat \<Rightarrow> string" where
  "slice_from_end s a b =
     (let start = length s - a; stop = length s - b
      in take (stop - start) (drop start s))"

text \<open>\<^verbatim>\<open>os.path.join(a, b)\<close> of \<^verbatim>\<open>posixpath\<close>, for two arguments.\<close>

definition path_join :: "string \<Rightarrow> string \<Rightarrow> string" where
  "path_join a b =
     (if startswith b ''/'' then b
      else if a = [] \<or> endswith a ''/'' then a @ b
      else a @ ''/'' @ b)"

text \<open>
  \<^verbatim>\<open>s.replace(old, new)\<close>: the occurrences of \<open>old\<close> are found from the left and do
  not overlap; with an empty \<open>old\<close>, \<open>new\<close> is put before every character and at the end.
\<close>

function str_replace :: "string \<Rightarrow> string \<Rightarrow> string \<Rightarrow> string" where
  "str_replace old new [] = (if old = [] then new else [])"
| "str_replace old new (c # cs) =
     (if old = [] then new @ c # str_replace old new cs
      else if take (length old) (c # cs) = old
      then new @ str_replace old new (drop (length old) (c # cs))
      else c # str_replace old new cs)"
  by pat_completeness auto
termination
  by (relation "measure (\<lambda>(old, new, s). length s)") auto

text \<open>
  \<^verbatim>\<open>int(s)\<close>. A \<open>char\<close> stands for the character with the same code point, so a
  \<open>string\<close> is a Python string of code points below 256. Around the number \<^verbatim>\<open>int\<close>
  skips white space, which among these characters is the space, \<^verbatim>\<open>\t\<close>, \<^verbatim>\<open>\n\<close>,
  \<^verbatim>\<open>\v\<close>, \<^verbatim>\<open>\f\<close>, \<^verbatim>\<open>\r\<close>, U+0085 and U+00A0; then comes an optional sign, then
  decimal digits, where single underscores may stand between digits. Below 256 the only
  decimal digits are \<^verbatim>\<open>0\<close> to \<^verbatim>\<open>9\<close>.
\<close>

definition is_py_space :: "char \<Rightarrow> bool" where
  "is_py_space c =
     (c \<in> set [CHR '' '', CHR 0x09, CHR 0x0A, CHR 0x0B, CHR 0x0C, CHR 0x0D, CHR 0x85, CHR 0xA0])"

definition digit_value :: "char \<Rightarrow> nat option" where
  "digit_value c =
     (let code = (of_char c :: nat)
      in if 48 \<le> code \<and> code \<le> 57 then Some (code - 48) else None)"

fun parse_digits :: "nat \<Rightarrow> char \<Rightarrow> string \<Rightarrow> nat option" where
  "parse_digits acc prev [] = (if prev = CHR ''_'' then None else Some acc)"
| "parse_digits acc prev (c # cs) =
     (if c = CHR ''_'' then (if prev = CHR ''_'' then None else parse_digits acc c cs)
      else (case digit_value c of
              None \<Rightarrow> None
            | Some d \<Rightarrow> parse_digits (10 * acc + d) c cs))"

definition py_strip :: "string \<Rightarrow> string" where
  "py_strip s = rev (dropWhile is_py_space (rev (dropWhile is_py_space s)))"

definition py_int :: "string \<Rightarrow> error + int" where
  "py_int s =
     (case (case py_strip s of
              c # cs \<Rightarrow>
                (if c = CHR ''-'' then map_option (\<lambda>n. - int n) (parse_digits 0 CHR ''_'' cs)
                 else if c = CHR ''+'' then map_option int (parse_digits 0 CHR ''_'' cs)
                 else map_option int (parse_digits 0 CHR ''_'' (c # cs)))
            | [] \<Rightarrow> None) of
        None \<Rightarrow> Inl (ValueError (InvalidLiteral s))
      | Some n \<Rightarrow> Inr n)"

subsection \<open>Field names\<close>

definition name_relations :: "(string \<times> string) list" where
  "name_relations =
     [(''e1'', ''Ez''), (''e2'', ''Ex''), (''e3'', ''Ey''),
      (''b1'', ''Bz''), (''b2'', ''Bx''), (''b3'', ''By''),
      (''charge'', ''rho'')]"

text \<open>\<^verbatim>\<open>_get_standard_visualpic_name\<close>.\<close>

definition get_standard_visualpic_name :: "string \<Rightarrow> error + string" where
  "get_standard_visualpic_name osiris_name =
     (case map_of name_relations osiris_name of
        Some standard_name \<Rightarrow> Inr standard_name
      | None \<Rightarrow> Inl (ValueError (UnknownDataName osiris_name)))"

text \<open>\<^verbatim>\<open>_get_osiris_field_name\<close>.\<close>

definition get_osiris_field_name :: "string \<Rightarrow> string" where
  "get_osiris_field_name field_folder_name = str_replace ''-savg'' [] field_folder_name"

text \<open>\<^verbatim>\<open>_get_field_path\<close>.\<close>

definition get_field_path :: "string \<Rightarrow> string" where
  "get_field_path field_folder_name = ''/'' @ get_osiris_field_name field_folder_name"

text \<open>
  The reading of the spec's sentence that the decoration is a suffix: cut one trailing
  \<^verbatim>\<open>-savg\<close> off, then look the name up. It is compared with the code below.
\<close>

definition strip_savg_suffix :: "string \<Rightarrow> string" where
  "strip_savg_suffix field_folder_name =
     (if endswith field_folder_name ''-savg''
      then take (length field_folder_name - 5) field_folder_name
      else field_folder_name)"

definition standard_name_suffix_reading :: "string \<Rightarrow> error + string" where
  "standard_name_suffix_reading field_folder_name =
     get_standard_visualpic_name (strip_savg_suffix field_folder_name)"

subsection \<open>Files and time steps\<close>

text \<open>
  The second loop of \<^verbatim>\<open>_get_files_and_timesteps\<close>: \<^verbatim>\<open>int(file[-9:-3])\<close> for every
  selected path, stopping at the first that does not parse. The numbers are stored in a
  \<^verbatim>\<open>float64\<close> array; a token has at most six characters, so every value is below
  \<open>10\<^sup>6\<close> in size and is stored exactly, and the array is modelled by the integers.
\<close>

fun parse_time_steps :: "string list \<Rightarrow> error + int list" where
  "parse_time_steps [] = Inr []"
| "parse_time_steps (file # rest) =
     (case py_int (slice_from_end file 9 3) of
        Inl e \<Rightarrow> Inl e
      | Inr time_step \<Rightarrow>
          (case parse_time_steps rest of
             Inl e \<Rightarrow> Inl e
           | Inr time_steps \<Rightarrow> Inr (time_step # time_steps)))"

text \<open>\<^verbatim>\<open>a[sort_i]\<close>: indexing an array with an array of positions.\<close>

definition take_positions :: "'a list \<Rightarrow> nat list \<Rightarrow> error + 'a list" where
  "take_positions xs positions =
     (if list_all (\<lambda>i. i < length xs) positions then Inr (map (\<lambda>i. xs ! i) positions)
      else Inl IndexError)"

text \<open>The first loop: the entries ending in \<^verbatim>\<open>.h5\<close>, joined with the folder's path.\<close>

definition select_h5_files :: "string \<Rightarrow> string list \<Rightarrow> string list" where
  "select_h5_files field_folder_path all_files =
     map (path_join field_folder_path) (filter (\<lambda>file. endswith file ''.h5'') all_files)"

text \<open>
  \<^verbatim>\<open>_get_files_and_timesteps\<close>, given the listing \<open>all_files\<close> of the folder.
  \<^verbatim>\<open>np.argsort\<close> is numpy's; the source calls it without a \<^verbatim>\<open>kind\<close>, which selects
  numpy's default \<^verbatim>\<open>quicksort\<close>. It is the parameter \<open>argsort\<close> here, and
  \<open>argsort_sorts\<close> says what numpy promises of it on an array: the result holds every
  position once and reads the array in ascending order. In which order it returns the
  positions of equal values is numpy's matter and is not fixed here.
\<close>

definition get_files_and_timesteps ::
  "(int list \<Rightarrow> nat list) \<Rightarrow> string \<Rightarrow> string list \<Rightarrow> error + string list \<times> int list" where
  "get_files_and_timesteps argsort field_folder_path all_files =
     (let h5_files = select_h5_files field_folder_path all_files
      in (case parse_time_steps h5_files of
            Inl e \<Rightarrow> Inl e
          | Inr time_steps \<Rightarrow>
              (let sort_i = argsort time_steps
               in (case take_positions time_steps sort_i of
                     Inl e \<Rightarrow> Inl e
                   | Inr sorted_steps \<Rightarrow>
                       (case take_positions h5_files sort_i of
                          Inl e \<Rightarrow> Inl e
                        | Inr sorted_files \<Rightarrow> Inr (sorted_files, sorted_steps))))))"


text \<open>
  The positions in ascending order of their values, equal values in the order of their
  positions. On an array without equal values this is what every sort returns that keeps
  numpy's promise; the functions are evaluated with it on such arrays.
\<close>

definition argsort_stable :: "int list \<Rightarrow> nat list" where
  "argsort_stable xs = sort_key (\<lambda>i. xs ! i) [0..<length xs]"


subsection \<open>The scan\<close>

text \<open>
  What the scanner hands to the constructor of \<^verbatim>\<open>FolderField\<close> (a class of another
  module), without the reader object.
\<close>

record folder_field =
  ff_name :: string
  ff_path :: string
  ff_files :: "string list"
  ff_time_steps :: "int list"
  ff_unit_converter :: string
  ff_species_name :: string

text \<open>\<^verbatim>\<open>_create_field\<close>, given the listing of the field's folder.\<close>

definition create_field ::
  "(int list \<Rightarrow> nat list) \<Rightarrow> string \<Rightarrow> string \<Rightarrow> string list \<Rightarrow> string \<Rightarrow>
   error + folder_field" where
  "create_field argsort field_name field_folder all_files species =
     (let field_path = get_field_path field_name;
          osiris_field_name = get_osiris_field_name field_name
      in (case get_standard_visualpic_name osiris_field_name of
            Inl e \<Rightarrow> Inl e
          | Inr standard_name \<Rightarrow>
              (case get_files_and_timesteps argsort field_folder all_files of
                 Inl e \<Rightarrow> Inl e
               | Inr (fld_files, time_steps) \<Rightarrow>
                   Inr \<lparr> ff_name = standard_name, ff_path = field_path,
                         ff_files = fld_files, ff_time_steps = time_steps,
                         ff_unit_converter = ''uc'', ff_species_name = species \<rparr>)))"

text \<open>
  The directory tree under the scanned folder: a directory is the list of its entries in
  the order in which \<^verbatim>\<open>os.listdir\<close> returns them. \<^verbatim>\<open>os.listdir\<close> of something that
  is not a directory raises \<^verbatim>\<open>NotADirectoryError\<close>.
\<close>

datatype fsnode = File | Dir "(string \<times> fsnode) list"

text \<open>The innermost loops of \<^verbatim>\<open>get_list_of_fields\<close>: the fields of one folder.\<close>

fun scan_field_folders ::
  "(int list \<Rightarrow> nat list) \<Rightarrow> string \<Rightarrow> string \<Rightarrow> (string \<times> fsnode) list \<Rightarrow>
   error + folder_field list" where
  "scan_field_folders argsort parent species [] = Inr []"
| "scan_field_folders argsort parent species ((field, node) # rest) =
     (case node of
        File \<Rightarrow> scan_field_folders argsort parent species rest
      | Dir files \<Rightarrow>
          (case create_field argsort field (path_join parent field) (map fst files) species of
             Inl e \<Rightarrow> Inl e
           | Inr fld \<Rightarrow>
               (case scan_field_folders argsort parent species rest of
                  Inl e \<Rightarrow> Inl e
                | Inr flds \<Rightarrow> Inr (fld # flds))))"

text \<open>The loop over the species folders under \<^verbatim>\<open>DENSITY\<close>.\<close>

fun scan_species_folders ::
  "(int list \<Rightarrow> nat list) \<Rightarrow> string \<Rightarrow> (string \<times> fsnode) list \<Rightarrow> error + folder_field list" where
  "scan_species_folders argsort subdir [] = Inr []"
| "scan_species_folders argsort subdir ((species, node) # rest) =
     (case node of
        File \<Rightarrow> scan_species_folders argsort subdir rest
      | Dir species_fields \<Rightarrow>
          (case scan_field_folders argsort (path_join subdir species) species species_fields of
             Inl e \<Rightarrow> Inl e
           | Inr flds \<Rightarrow>
               (case scan_species_folders argsort subdir rest of
                  Inl e \<Rightarrow> Inl e
                | Inr flds' \<Rightarrow> Inr (flds @ flds'))))"

text \<open>The outer loop: only the entries \<^verbatim>\<open>DENSITY\<close> and \<^verbatim>\<open>FLD\<close> are looked into.\<close>

fun scan_folders ::
  "(int list \<Rightarrow> nat list) \<Rightarrow> string \<Rightarrow> (string \<times> fsnode) list \<Rightarrow> error + folder_field list" where
  "scan_folders argsort folder_path [] = Inr []"
| "scan_folders argsort folder_path ((folder, node) # rest) =
     (case (if folder = ''DENSITY'' then
              (case node of
                 File \<Rightarrow> Inl (NotADirectoryError (path_join folder_path folder))
               | Dir available_species \<Rightarrow>
                   scan_species_folders argsort (path_join folder_path folder) available_species)
            else if folder = ''FLD'' then
              (case node of
                 File \<Rightarrow> Inl (NotADirectoryError (path_join folder_path folder))
               | Dir domain_fields \<Rightarrow>
                   scan_field_folders argsort (path_join folder_path folder) [] domain_fields)
            else Inr []) of
        Inl e \<Rightarrow> Inl e
      | Inr flds \<Rightarrow>
          (case scan_folders argsort folder_path rest of
             Inl e \<Rightarrow> Inl e
           | Inr flds' \<Rightarrow> Inr (flds @ flds')))"

text \<open>\<^verbatim>\<open>get_list_of_fields\<close>.\<close>

definition get_list_of_fields ::
  "(int list \<Rightarrow> nat list) \<Rightarrow> string \<Rightarrow> fsnode \<Rightarrow> error + folder_field list" where
  "get_list_of_fields argsort folder_path root =
     (case root of
        File \<Rightarrow> Inl (NotADirectoryError folder_path)
      | Dir folders_in_path \<Rightarrow> scan_folders argsort folder_path folders_in_path)"

text \<open>
  The units that the separation loop collects for the components satisfying \<open>P\<close>, when
  it starts at position \<open>i\<close> of \<^verbatim>\<open>data_units\<close>.
\<close>

definition units_for :: "(string \<Rightarrow> bool) \<Rightarrow> string list \<Rightarrow> string list option \<Rightarrow> nat \<Rightarrow> string list" where
  "units_for P comps du i =
     (case du of None \<Rightarrow> [] | Some us \<Rightarrow> map snd (filter (\<lambda>(c, t). P c) (zip comps (drop i us))))"

text \<open>
  The requested components that \<^verbatim>\<open>get_data\<close> reads from the file, and those it
  derives: a component that is in the file is read, also when a derived one has its name.
\<close>

definition requested_raw :: "('a, 'v) particle_species \<Rightarrow> string list \<Rightarrow> string list" where
  "requested_raw sp components_list =
     filter (\<lambda>c. c \<in> set (components_in_file sp)) components_list"

definition requested_derived :: "('a, 'v) particle_species \<Rightarrow> string list \<Rightarrow> string list" where
  "requested_derived sp components_list =
     filter (\<lambda>c. c \<notin> set (components_in_file sp)) components_list"

text \<open>
  What one pass of the loop of \<^verbatim>\<open>_calculate_derived_data\<close> asks of the file for the
  derived component \<open>name\<close>, and the entry it stores for it; both are used to state
  what the loop as a whole does.
\<close>

definition fetch_requirements ::
  "('a, 'v) data_def list \<Rightarrow> ('a, 'v) particle_species \<Rightarrow> string \<Rightarrow> string option \<Rightarrow>
   string \<Rightarrow> (('a, 'v) pdata, 'a, 'v) logged" where
  "fetch_requirements registry sp file_path time_units name =
     (case get_definition registry name of
        Inl e \<Rightarrow> (Inl e, [])
      | Inr d \<Rightarrow>
          get_file_data sp file_path (dd_requirements d)
            (Some (replicate (length (dd_requirements d)) ''SI'')) time_units)"

definition derived_entry ::
  "('a, 'v) data_def list \<Rightarrow> ('a, 'v) particle_species \<Rightarrow> string \<Rightarrow> string option \<Rightarrow>
   string \<Rightarrow> ('a \<times> 'v metadata) option" where
  "derived_entry registry sp file_path time_units name =
     (case get_definition registry name of
        Inl e \<Rightarrow> None
      | Inr d \<Rightarrow>
          (case fst (fetch_requirements registry sp file_path time_units name) of
             Inl e \<Rightarrow> None
           | Inr required_data \<Rightarrow>
               (case dd_requirements d of
                  [] \<Rightarrow> None
                | first_req # _ \<Rightarrow>
                    (case required_data first_req of
                       None \<Rightarrow> None
                     | Some (_, md) \<Rightarrow>
                         Some (dd_recipe d required_data,
                               md(''units'' \<mapsto> MStr (dd_units d)))))))"

text \<open>The \<^verbatim>\<open>'units'\<close> entry of the metadata returned for a component.\<close>

definition result_units :: "error + ('a, 'v) pdata \<Rightarrow> string \<Rightarrow> 'v mdval option" where
  "result_units r c =
     (case r of
        Inl e \<Rightarrow> None
      | Inr out \<Rightarrow> (case out c of None \<Rightarrow> None | Some (_, md) \<Rightarrow> md ''units''))"

section \<open>A small species and a small folder, to evaluate the functions on\<close>

text \<open>
  Arrays are single integers here. The reader answers every request with one entry for
  each requested component; the converter rescales a component for which a target unit is
  given and writes that unit into the component's metadata.
\<close>

definition demo_recipe :: "string \<Rightarrow> string \<Rightarrow> (int, unit) pdata \<Rightarrow> int" where
  "demo_recipe a b data =
     (case (data a, data b) of
        (Some (x, _), Some (y, _)) \<Rightarrow> x + y
      | _ \<Rightarrow> 0)"

definition demo_registry :: "(int, unit) data_def list" where
  "demo_registry =
     [\<lparr> dd_name = ''x_prime'', dd_units = ''rad'', dd_requirements = [''px'', ''pz''],
        dd_recipe = demo_recipe ''px'' ''pz'' \<rparr>,
      \<lparr> dd_name = ''y_prime'', dd_units = ''rad'', dd_requirements = [''py'', ''pz''],
        dd_recipe = demo_recipe ''py'' ''pz'' \<rparr>]"

definition demo_reader :: "string \<Rightarrow> string \<Rightarrow> string list \<Rightarrow> error + (int, unit) pdata" where
  "demo_reader file_path species components_list =
     Inr (\<lambda>c. if c \<in> set components_list
               then Some (int (length c),
                          [''units'' \<mapsto> MStr ''code'', ''time'' \<mapsto> MOther ()])
               else None)"

definition demo_converter ::
  "(int, unit) pdata \<Rightarrow> (string \<rightharpoonup> string) \<Rightarrow> string option \<Rightarrow> error + (int, unit) pdata" where
  "demo_converter data target_data_units target_time_units =
     Inr (\<lambda>c. case data c of
                 None \<Rightarrow> None
               | Some (x, md) \<Rightarrow>
                   (case target_data_units c of
                      None \<Rightarrow> Some (x, md)
                    | Some u \<Rightarrow> Some (1000 * x, md(''units'' \<mapsto> MStr u))))"

definition demo_species :: "(int, unit) particle_species" where
  "demo_species =
     init_species demo_registry ''electrons'' [''px'', ''pz'', ''tag''] [0, 10, 20]
       [''e_000000.h5'', ''e_000010.h5'', ''e_000020.h5''] demo_reader demo_converter"

section \<open>Availability of derived components\<close>

lemma determine_available_set:
  "set (determine_available_derived_components registry components) =
     dd_name ` {d \<in> set registry. set (dd_requirements d) \<subseteq> set components}"
  by (induction registry) auto

text \<open>
  Claim C1. For every definition \<open>d\<close> of the registry: when all requirements of \<open>d\<close>
  are among \<^verbatim>\<open>components_in_file\<close>, the name of \<open>d\<close> is in the
  \<^verbatim>\<open>derived_components\<close> computed when the species is constructed; and in a registry
  whose definitions have pairwise different names (so that a name stands for one
  definition), the name of \<open>d\<close> is in \<^verbatim>\<open>derived_components\<close> exactly when all
  requirements of \<open>d\<close> are among \<^verbatim>\<open>components_in_file\<close>.
\<close>

theorem derived_component_available_iff:
  assumes "d \<in> set registry"
  shows "(set (dd_requirements d) \<subseteq> set components \<longrightarrow>
            dd_name d \<in> set (derived_components
              (init_species registry name components steps files reader converter))) \<and>
         (distinct (map dd_name registry) \<longrightarrow>
            (dd_name d \<in> set (derived_components
               (init_species registry name components steps files reader converter))
             \<longleftrightarrow> set (dd_requirements d) \<subseteq> set components))"
proof -
  let ?avail = "{d' \<in> set registry. set (dd_requirements d') \<subseteq> set components}"
  have derived: "set (derived_components
      (init_species registry name components steps files reader converter)) = dd_name ` ?avail"
    by (simp add: init_species_def determine_available_set)
  have sufficient: "dd_name d \<in> dd_name ` ?avail" if "d \<in> ?avail"
    using that by (rule imageI)
  have necessary: "d \<in> ?avail"
    if "distinct (map dd_name registry)" "dd_name d \<in> dd_name ` ?avail"
  proof -
    from that(2) obtain d' where d': "d' \<in> ?avail" "dd_name d' = dd_name d"
      by force
    from d' assms that(1) have "d' = d"
      by (simp add: distinct_map inj_on_def)
    with d' show ?thesis
      by simp
  qed
  from assms sufficient necessary show ?thesis
    unfolding derived by blast
qed

theorem derived_component_available_iff_witness:
  "demo_registry ! 0 \<in> set demo_registry \<and> distinct (map dd_name demo_registry) \<and>
   dd_name (demo_registry ! 0) \<in> set (derived_components demo_species) \<and>
   set (dd_requirements (demo_registry ! 0)) \<subseteq> set [''px'', ''pz'', ''tag''] \<and>
   dd_name (demo_registry ! 1) \<notin> set (derived_components demo_species) \<and>
   \<not> set (dd_requirements (demo_registry ! 1)) \<subseteq> set [''px'', ''pz'', ''tag'']"
proof -
  have a: "demo_registry ! 0 \<in> set demo_registry"
    and a': "demo_registry ! 1 \<in> set demo_registry"
    by (simp_all add: demo_registry_def)
  have b: "distinct (map dd_name demo_registry)"
    by (simp add: demo_registry_def)
  have c: "set (dd_requirements (demo_registry ! 0)) \<subseteq> set [''px'', ''pz'', ''tag'']"
    and c': "\<not> set (dd_requirements (demo_registry ! 1)) \<subseteq> set [''px'', ''pz'', ''tag'']"
    by (simp_all add: demo_registry_def)
  from derived_component_available_iff [OF a, of "[''px'', ''pz'', ''tag'']" "''electrons''"
      "[0, 10, 20]" "[''e_000000.h5'', ''e_000010.h5'', ''e_000020.h5'']" demo_reader
      demo_converter] b c
  have d: "dd_name (demo_registry ! 0) \<in> set (derived_components demo_species)"
    unfolding demo_species_def by blast
  from derived_component_available_iff [OF a', of "[''px'', ''pz'', ''tag'']" "''electrons''"
      "[0, 10, 20]" "[''e_000000.h5'', ''e_000010.h5'', ''e_000020.h5'']" demo_reader
      demo_converter] b c'
  have d': "dd_name (demo_registry ! 1) \<notin> set (derived_components demo_species)"
    unfolding demo_species_def by blast
  from a b c c' d d' show ?thesis
    by (intro conjI)
qed

section \<open>The separation of raw and derived components\<close>

lemma list_index_absent:
  "x \<notin> set xs \<Longrightarrow> list_index xs x = Inl (ValueError (NotInList x))"
  by (induction xs) auto

lemma list_index_present:
  "x \<in> set xs \<Longrightarrow>
     list_index xs x = Inr (length (takeWhile (\<lambda>y. y \<noteq> x) xs))"
  by (induction xs) auto

lemma first_occurrence:
  assumes "x \<in> set xs"
  shows "length (takeWhile (\<lambda>y. y \<noteq> x) xs) < length xs"
    and "xs ! length (takeWhile (\<lambda>y. y \<noteq> x) xs) = x"
    and "\<forall>j < length (takeWhile (\<lambda>y. y \<noteq> x) xs). xs ! j \<noteq> x"
proof -
  show l: "length (takeWhile (\<lambda>y. y \<noteq> x) xs) < length xs"
    using assms by (induction xs) auto
  show "xs ! length (takeWhile (\<lambda>y. y \<noteq> x) xs) = x"
    using nth_length_takeWhile [OF l] by simp
  show "\<forall>j < length (takeWhile (\<lambda>y. y \<noteq> x) xs). xs ! j \<noteq> x"
    by (metis (mono_tags, lifting) nth_mem set_takeWhileD takeWhile_nth)
qed

lemma separate_components_unknown:
  assumes "find (\<lambda>c. c \<notin> set (components_in_file sp) \<and> c \<notin> set (derived_components sp)) comps = Some bad"
    and "case du of None \<Rightarrow> True | Some us \<Rightarrow> i + length comps \<le> length us"
  shows "separate_components sp du i comps acc =
           Inl (ValueError (ComponentNotFound bad (get_list_of_available_components sp False)))"
  using assms
proof (induction comps arbitrary: i acc)
  case Nil
  then show ?case by simp
next
  case (Cons c comps)
  obtain a b u v where acc: "acc = (a, b, u, v)" by (cases acc) auto
  show ?case
    using Cons.prems Cons.IH [of "Suc i"]
    by (auto simp: acc append_unit_def split: option.splits if_splits)
qed

lemma units_for_Nil [simp]: "units_for P [] du i = []"
  by (simp add: units_for_def split: option.splits)

lemma units_for_Cons:
  assumes "case du of None \<Rightarrow> True | Some us \<Rightarrow> i < length us"
  shows "units_for P (c # comps) du i =
           (case du of None \<Rightarrow> [] | Some us \<Rightarrow> (if P c then [us ! i] else [])) @
           units_for P comps du (Suc i)"
proof (cases du)
  case None
  then show ?thesis by (simp add: units_for_def)
next
  case (Some us)
  with assms have "i < length us" by simp
  then have "drop i us = us ! i # drop (Suc i) us"
    by (simp add: Cons_nth_drop_Suc)
  with Some show ?thesis by (simp add: units_for_def)
qed

lemma separate_components_known:
  assumes "\<forall>c\<in>set comps. c \<in> set (components_in_file sp) \<or> c \<in> set (derived_components sp)"
    and "case du of None \<Rightarrow> True | Some us \<Rightarrow> i + length comps \<le> length us"
  shows "separate_components sp du i comps (a, b, u, v) =
           Inr (a @ filter (\<lambda>c. c \<in> set (components_in_file sp)) comps,
                b @ filter (\<lambda>c. c \<notin> set (components_in_file sp)) comps,
                u @ units_for (\<lambda>c. c \<in> set (components_in_file sp)) comps du i,
                v @ units_for (\<lambda>c. c \<notin> set (components_in_file sp)) comps du i)"
  using assms
proof (induction comps arbitrary: i a b u v)
  case Nil
  then show ?case by simp
next
  case (Cons c comps)
  have rest: "\<forall>c\<in>set comps. c \<in> set (components_in_file sp) \<or> c \<in> set (derived_components sp)"
    using Cons.prems(1) by simp
  have bound: "case du of None \<Rightarrow> True | Some us \<Rightarrow> Suc i + length comps \<le> length us"
    using Cons.prems(2) by (simp split: option.splits)
  have here: "case du of None \<Rightarrow> True | Some us \<Rightarrow> i < length us"
    using Cons.prems(2) by (simp split: option.splits)
  note IH = Cons.IH [OF rest bound]
  show ?case
  proof (cases "c \<in> set (components_in_file sp)")
    case True
    show ?thesis
    proof (cases du)
      case None
      with True IH [of "a @ [c]" b u v] show ?thesis
        by (simp add: append_unit_def units_for_def)
    next
      case (Some us)
      with here have i: "i < length us" by simp
      from True i IH [of "a @ [c]" b "u @ [us ! i]" v] units_for_Cons [OF here]
      show ?thesis
        unfolding Some by (simp add: append_unit_def)
    qed
  next
    case False
    then have d: "c \<in> set (derived_components sp)"
      using Cons.prems(1) by simp
    show ?thesis
    proof (cases du)
      case None
      with False d IH [of a "b @ [c]" u v] show ?thesis
        by (simp add: append_unit_def units_for_def)
    next
      case (Some us)
      with here have i: "i < length us" by simp
      from False d i IH [of a "b @ [c]" u "v @ [us ! i]"] units_for_Cons [OF here]
      show ?thesis
        unfolding Some by (simp add: append_unit_def)
    qed
  qed
qed

lemma available_components_remove1:
  "get_list_of_available_components sp False =
     remove1 ''tag'' (components_in_file sp @ derived_components sp)"
  by (simp add: get_list_of_available_components_def Let_def remove1_idem del: remove1_append)

lemma units_bound:
  assumes "\<forall>units. du = Some units \<longrightarrow> length comps = length units"
  shows "case du of None \<Rightarrow> True | Some us \<Rightarrow> 0 + length comps \<le> length us"
  using assms by (simp split: option.splits)

lemma no_mismatch:
  assumes "\<forall>units. du = Some units \<longrightarrow> length comps = length units"
  shows "(case du of None \<Rightarrow> None
          | Some units \<Rightarrow> (if length comps \<noteq> length units
               then Some (LengthMismatch (length comps) (length units)) else None)) = None"
  using assms by (simp split: option.splits)

lemma get_data_known:
  assumes "\<forall>c\<in>set comps. c \<in> set (components_in_file sp) \<or> c \<in> set (derived_components sp)"
    and "\<forall>units. du = Some units \<longrightarrow> length comps = length units"
  shows "get_data registry sp ts comps du tu =
     (case get_file_path sp ts of
        Inl e \<Rightarrow> (Inl e, [])
      | Inr file_path \<Rightarrow>
          bind_logged
            (get_file_data sp file_path (filter (\<lambda>c. c \<in> set (components_in_file sp)) comps)
               (units_result du (units_for (\<lambda>c. c \<in> set (components_in_file sp)) comps du 0)) tu)
            (\<lambda>folder_data.
               bind_logged
                 (calculate_derived_data registry sp file_path
                    (filter (\<lambda>c. c \<notin> set (components_in_file sp)) comps)
                    (units_result du (units_for (\<lambda>c. c \<notin> set (components_in_file sp)) comps du 0)) tu)
                 (\<lambda>derived_data. (Inr (folder_data ++ derived_data), []))))"
  unfolding get_data_def no_mismatch [OF assms(2)]
  using separate_components_known [OF assms(1) units_bound [OF assms(2)], of "[]" "[]" "[]" "[]"]
  by simp

lemma get_data_unknown:
  assumes "find (\<lambda>c. c \<notin> set (components_in_file sp) \<and> c \<notin> set (derived_components sp)) comps = Some bad"
    and "\<forall>units. du = Some units \<longrightarrow> length comps = length units"
  shows "get_data registry sp ts comps du tu =
     (Inl (ValueError (ComponentNotFound bad (get_list_of_available_components sp False))), [])"
  unfolding get_data_def no_mismatch [OF assms(2)]
  using separate_components_unknown [OF assms(1) units_bound [OF assms(2)], of "([], [], [], [])"]
  by simp

lemma demo_species_simps:
  "species_name demo_species = ''electrons''"
  "components_in_file demo_species = [''px'', ''pz'', ''tag'']"
  "derived_components demo_species = [''x_prime'']"
  "timesteps demo_species = [0, 10, 20]"
  "species_files demo_species = [''e_000000.h5'', ''e_000010.h5'', ''e_000020.h5'']"
  "read_particle_data demo_species = demo_reader"
  "convert_particle_data_units demo_species = demo_converter"
  by (simp_all add: demo_species_def init_species_def demo_registry_def)

lemma get_file_path_absent:
  "ts \<notin> set (timesteps sp) \<Longrightarrow> get_file_path sp ts = Inl (ValueError (NotInList ts))"
  by (simp add: get_file_path_def list_index_absent)

lemma get_file_path_present:
  assumes "ts \<in> set (timesteps sp)" "length (species_files sp) = length (timesteps sp)"
  shows "get_file_path sp ts =
           Inr (species_files sp ! length (takeWhile (\<lambda>y. y \<noteq> ts) (timesteps sp)))"
  using assms first_occurrence(1) [OF assms(1)]
  by (simp add: get_file_path_def list_index_present)

lemma get_file_data_calls:
  "\<exists>calls. snd (get_file_data sp fp comps du tu) = ReadCall fp (species_name sp) comps # calls"
  by (simp add: get_file_data_def bind_logged_def split: sum.splits prod.splits)

lemma bind_logged_calls_prefix:
  "\<exists>calls. snd (bind_logged m f) = snd m @ calls"
  by (cases m) (auto simp: bind_logged_def split: sum.splits prod.splits)

lemma calculate_derived_data_none:
  "calculate_derived_data registry sp fp [] None tu = (Inr Map.empty, [])"
  by (simp add: calculate_derived_data_def bind_logged_def convert_data_units_def)

section \<open>\<^verbatim>\<open>get_data\<close>: the checks made before any work\<close>

text \<open>
  Claim C6. When \<^verbatim>\<open>data_units\<close> is given and its length differs from the length of
  \<^verbatim>\<open>components_list\<close>, \<^verbatim>\<open>get_data\<close> fails with the \<^verbatim>\<open>ValueError\<close> whose message
  reports both lengths, and it has called neither the reader nor the unit converter
  before: the list of calls is empty, and no derived component has been computed.
\<close>

theorem get_data_length_mismatch:
  "length components_list \<noteq> length units \<Longrightarrow>
   get_data registry sp time_step components_list (Some units) time_units =
     (Inl (ValueError (LengthMismatch (length components_list) (length units))), [])"
  by (simp add: get_data_def)

theorem get_data_length_mismatch_witness:
  "length [''px'', ''pz''] \<noteq> length [''SI''] \<and>
   get_data demo_registry demo_species 10 [''px'', ''pz''] (Some [''SI'']) None =
     (Inl (ValueError (LengthMismatch 2 1)), [])"
  using get_data_length_mismatch [of "[''px'', ''pz'']" "[''SI'']" demo_registry demo_species 10 None]
  by simp

text \<open>
  Claim C5, as amended. When \<^verbatim>\<open>data_units\<close> is omitted or as long as
  \<^verbatim>\<open>components_list\<close>, and some requested name is neither in \<^verbatim>\<open>components_in_file\<close>
  nor in \<^verbatim>\<open>derived_components\<close>, \<^verbatim>\<open>get_data\<close> fails, before any call to the reader
  or the converter, with the \<^verbatim>\<open>ValueError\<close> that names the first such component and lists
  \<^verbatim>\<open>get_list_of_available_components()\<close>: the raw components followed by the derived
  ones, with the first \<^verbatim>\<open>'tag'\<close> taken out; when no name occurs twice in the two lists,
  these are all available components but \<^verbatim>\<open>'tag'\<close>.
\<close>

theorem get_data_unknown_component:
  assumes "x \<in> set components_list"
    and "x \<notin> set (components_in_file sp)"
    and "x \<notin> set (derived_components sp)"
    and "\<forall>units. data_units = Some units \<longrightarrow> length components_list = length units"
  shows "\<exists>bad. find (\<lambda>c. c \<notin> set (components_in_file sp) \<and> c \<notin> set (derived_components sp))
                 components_list = Some bad \<and>
           get_data registry sp time_step components_list data_units time_units =
             (Inl (ValueError (ComponentNotFound bad
                (remove1 ''tag'' (components_in_file sp @ derived_components sp)))), []) \<and>
           remove1 ''tag'' (components_in_file sp @ derived_components sp) =
             get_list_of_available_components sp False \<and>
           (distinct (components_in_file sp @ derived_components sp) \<longrightarrow>
              set (get_list_of_available_components sp False) =
                set (components_in_file sp @ derived_components sp) - {''tag''})"
proof -
  let ?unknown = "\<lambda>c. c \<notin> set (components_in_file sp) \<and> c \<notin> set (derived_components sp)"
  from assms(1-3) obtain bad where bad: "find ?unknown components_list = Some bad"
    by (cases "find ?unknown components_list") (auto simp: find_None_iff)
  have avail: "remove1 ''tag'' (components_in_file sp @ derived_components sp) =
      get_list_of_available_components sp False"
    by (simp only: available_components_remove1)
  have "set (remove1 ''tag'' (components_in_file sp @ derived_components sp)) =
      set (components_in_file sp @ derived_components sp) - {''tag''}"
    if "distinct (components_in_file sp @ derived_components sp)"
    using that by (rule set_remove1_eq)
  with bad get_data_unknown [OF bad assms(4)] avail show ?thesis
    by simp
qed

theorem get_data_unknown_component_witness:
  "get_data demo_registry demo_species 10 [''px'', ''unknown_comp''] None None =
     (Inl (ValueError (ComponentNotFound ''unknown_comp'' [''px'', ''pz'', ''x_prime''])), [])"
proof -
  have a: "''unknown_comp'' \<in> set [''px'', ''unknown_comp'']"
    and b: "''unknown_comp'' \<notin> set (components_in_file demo_species)"
    and c: "''unknown_comp'' \<notin> set (derived_components demo_species)"
    and d: "\<forall>units. (None :: string list option) = Some units \<longrightarrow>
      length [''px'', ''unknown_comp''] = length units"
    by (simp_all add: demo_species_simps)
  from get_data_unknown_component [OF a b c d, of demo_registry 10 None]
  show ?thesis
    by (simp add: demo_species_simps)
qed

text \<open>
  The claim C5 as it was stated fails when the lengths do not match as well: the check of the
  lengths comes first, and its error does not list any component.
\<close>

theorem unknown_component_error_counterexample:
  "''unknown_comp'' \<notin> set (components_in_file demo_species) \<and>
   ''unknown_comp'' \<notin> set (derived_components demo_species) \<and>
   get_data demo_registry demo_species 10 [''unknown_comp''] (Some []) None =
     (Inl (ValueError (LengthMismatch 1 0)), [])"
  by (simp add: get_data_def demo_species_simps)

text \<open>
  Claim C4, as amended. When every requested name is available and \<^verbatim>\<open>data_units\<close>
  is omitted or as long as \<^verbatim>\<open>components_list\<close>: if \<^verbatim>\<open>time_step\<close> does not occur in
  \<^verbatim>\<open>timesteps\<close>, \<^verbatim>\<open>get_data\<close> fails with the \<^verbatim>\<open>ValueError\<close> of
  \<^verbatim>\<open>list.index\<close>, before any call to the reader or the converter; if it occurs, and
  there are as many files as time steps, the path is the entry of \<^verbatim>\<open>species_files\<close> at
  the position of the first occurrence of \<^verbatim>\<open>time_step\<close> in \<^verbatim>\<open>timesteps\<close>, and the
  first thing \<^verbatim>\<open>get_data\<close> does is to read the raw components from that file.
\<close>

theorem get_data_time_step_lookup:
  assumes "\<forall>c\<in>set components_list.
             c \<in> set (components_in_file sp) \<or> c \<in> set (derived_components sp)"
    and "\<forall>units. data_units = Some units \<longrightarrow> length components_list = length units"
  shows "(time_step \<notin> set (timesteps sp) \<longrightarrow>
            get_data registry sp time_step components_list data_units time_units =
              (Inl (ValueError (NotInList time_step)), [])) \<and>
         (time_step \<in> set (timesteps sp) \<longrightarrow>
          length (species_files sp) = length (timesteps sp) \<longrightarrow>
            (\<exists>i calls. i < length (timesteps sp) \<and> timesteps sp ! i = time_step \<and>
               (\<forall>j<i. timesteps sp ! j \<noteq> time_step) \<and>
               get_file_path sp time_step = Inr (species_files sp ! i) \<and>
               snd (get_data registry sp time_step components_list data_units time_units) =
                 ReadCall (species_files sp ! i) (species_name sp)
                   (filter (\<lambda>c. c \<in> set (components_in_file sp)) components_list) # calls))"
proof (intro conjI impI)
  assume "time_step \<notin> set (timesteps sp)"
  then show "get_data registry sp time_step components_list data_units time_units =
              (Inl (ValueError (NotInList time_step)), [])"
    by (simp add: get_data_known [OF assms] get_file_path_absent)
next
  assume present: "time_step \<in> set (timesteps sp)"
    and len: "length (species_files sp) = length (timesteps sp)"
  let ?i = "length (takeWhile (\<lambda>y. y \<noteq> time_step) (timesteps sp))"
  let ?fp = "species_files sp ! ?i"
  let ?raw = "filter (\<lambda>c. c \<in> set (components_in_file sp)) components_list"
  have fp: "get_file_path sp time_step = Inr ?fp"
    by (rule get_file_path_present [OF present len])
  obtain calls1 where c1: "snd (get_file_data sp ?fp ?raw
      (units_result data_units (units_for (\<lambda>c. c \<in> set (components_in_file sp))
         components_list data_units 0)) time_units) =
      ReadCall ?fp (species_name sp) ?raw # calls1"
    using get_file_data_calls by blast
  obtain calls2 where c2:
    "snd (get_data registry sp time_step components_list data_units time_units) =
       (ReadCall ?fp (species_name sp) ?raw # calls1) @ calls2"
    unfolding get_data_known [OF assms] fp sum.case c1 [symmetric]
    using bind_logged_calls_prefix by blast
  from first_occurrence [OF present] fp c2
  show "\<exists>i calls. i < length (timesteps sp) \<and> timesteps sp ! i = time_step \<and>
               (\<forall>j<i. timesteps sp ! j \<noteq> time_step) \<and>
               get_file_path sp time_step = Inr (species_files sp ! i) \<and>
               snd (get_data registry sp time_step components_list data_units time_units) =
                 ReadCall (species_files sp ! i) (species_name sp) ?raw # calls"
    by (intro exI [of _ ?i] exI [of _ "calls1 @ calls2"]) simp
qed

theorem get_data_time_step_lookup_witness:
  "get_data demo_registry demo_species 999 [''px'', ''x_prime''] None None =
     (Inl (ValueError (NotInList 999)), []) \<and>
   get_file_path demo_species 10 = Inr ''e_000010.h5'' \<and>
   hd (snd (get_data demo_registry demo_species 10 [''px'', ''x_prime''] None None)) =
     ReadCall ''e_000010.h5'' ''electrons'' [''px'']"
proof -
  have known: "\<forall>c\<in>set [''px'', ''x_prime''].
      c \<in> set (components_in_file demo_species) \<or> c \<in> set (derived_components demo_species)"
    by (simp add: demo_species_simps)
  have units: "\<forall>units. (None :: string list option) = Some units \<longrightarrow>
      length [''px'', ''x_prime''] = length units"
    by simp
  note lookup = get_data_time_step_lookup [OF known units, of _ demo_registry None]
  have absent: "999 \<notin> set (timesteps demo_species)"
    by (simp add: demo_species_simps)
  have present: "10 \<in> set (timesteps demo_species)"
    and len: "length (species_files demo_species) = length (timesteps demo_species)"
    by (simp_all add: demo_species_simps)
  from lookup [of 999] absent
  have a: "get_data demo_registry demo_species 999 [''px'', ''x_prime''] None None =
     (Inl (ValueError (NotInList 999)), [])"
    by blast
  from lookup [of 10] present len obtain i calls where
    i: "i < length (timesteps demo_species)" "timesteps demo_species ! i = 10"
    and fp: "get_file_path demo_species 10 = Inr (species_files demo_species ! i)"
    and calls: "snd (get_data demo_registry demo_species 10 [''px'', ''x_prime''] None None) =
       ReadCall (species_files demo_species ! i) (species_name demo_species)
         (filter (\<lambda>c. c \<in> set (components_in_file demo_species)) [''px'', ''x_prime'']) # calls"
    by blast
  from i have "i = 1"
    by (simp add: demo_species_simps nth_Cons less_Suc_eq split: nat.splits)
  with fp calls a show ?thesis
    by (simp add: demo_species_simps)
qed

text \<open>
  The claim C4 as it was stated fails when \<^verbatim>\<open>data_units\<close> has another length than
  \<^verbatim>\<open>components_list\<close>: the error is then the one about the lengths, whether the time
  step exists or not.
\<close>

theorem time_step_error_counterexample:
  "''px'' \<in> set (components_in_file demo_species) \<and>
   999 \<notin> set (timesteps demo_species) \<and>
   get_data demo_registry demo_species 999 [''px''] (Some []) None =
     (Inl (ValueError (LengthMismatch 1 0)), [])"
  by (simp add: get_data_def demo_species_def init_species_def)

section \<open>\<^verbatim>\<open>get_data\<close> on raw components\<close>

text \<open>
  Claim C9. For a call with \<^verbatim>\<open>data_units\<close> omitted, all of whose components are in
  \<^verbatim>\<open>components_in_file\<close>, whose time step resolves to a file, and which the reader
  answers with one entry for each requested name: \<^verbatim>\<open>get_data\<close> returns the reader's
  mapping itself, so its keys are the requested names and every metadata dictionary,
  \<^verbatim>\<open>'units'\<close> included, is the one the reader returned; the only call made is the one to the
  reader, so no unit conversion has taken place.
\<close>

theorem get_data_raw_components:
  assumes "\<forall>c\<in>set components_list. c \<in> set (components_in_file sp)"
    and "get_file_path sp time_step = Inr file_path"
    and "read_particle_data sp file_path (species_name sp) components_list = Inr data"
    and "dom data = set components_list"
  shows "get_data registry sp time_step components_list None time_units =
           (Inr data, [ReadCall file_path (species_name sp) components_list]) \<and>
         dom data = set components_list"
proof -
  have known: "\<forall>c\<in>set components_list.
      c \<in> set (components_in_file sp) \<or> c \<in> set (derived_components sp)"
    using assms(1) by simp
  have units: "\<forall>units. (None :: string list option) = Some units \<longrightarrow>
      length components_list = length units"
    by simp
  have raw: "filter (\<lambda>c. c \<in> set (components_in_file sp)) components_list = components_list"
    using assms(1) by (simp add: filter_id_conv)
  have der: "filter (\<lambda>c. c \<notin> set (components_in_file sp)) components_list = []"
    using assms(1) by (simp add: filter_empty_conv)
  show ?thesis
    unfolding get_data_known [OF known units] raw der
    using assms(2-4)
    by (simp add: units_result_def get_file_data_def convert_data_units_def bind_logged_def
        calculate_derived_data_none)
qed

theorem get_data_raw_components_witness:
  "get_data demo_registry demo_species 10 [''px'', ''tag''] None None =
     (Inr (\<lambda>c. if c = ''px'' \<or> c = ''tag''
                then Some (int (length c), [''units'' \<mapsto> MStr ''code'', ''time'' \<mapsto> MOther ()])
                else None),
      [ReadCall ''e_000010.h5'' ''electrons'' [''px'', ''tag'']])"
proof -
  let ?data = "\<lambda>c. if c = ''px'' \<or> c = ''tag''
                then Some (int (length c), [''units'' \<mapsto> MStr ''code'', ''time'' \<mapsto> MOther ()])
                else None"
  have a: "\<forall>c\<in>set [''px'', ''tag'']. c \<in> set (components_in_file demo_species)"
    by (simp add: demo_species_simps)
  have b: "get_file_path demo_species 10 = Inr ''e_000010.h5''"
    by (simp add: get_file_path_def demo_species_simps)
  have c: "read_particle_data demo_species ''e_000010.h5'' (species_name demo_species)
             [''px'', ''tag''] = Inr ?data"
    by (simp add: demo_species_simps demo_reader_def)
  have d: "dom ?data = set [''px'', ''tag'']"
    by (auto simp: dom_def)
  from get_data_raw_components [OF a b c d, of demo_registry None]
  show ?thesis
    by (simp add: demo_species_simps)
qed

section \<open>The list of available components\<close>

lemma available_components_obj_result:
  assumes "cr < length h" "dr < length h"
  shows "get_list_of_available_components_obj h cr dr include_tags =
           (h @ [if \<not> include_tags \<and> ''tag'' \<in> set (h ! cr @ h ! dr)
                 then remove1 ''tag'' (h ! cr @ h ! dr) else h ! cr @ h ! dr],
            length h)"
  using assms
  by (simp add: get_list_of_available_components_obj_def list_concat_def list_remove_def
      nth_append del: remove1_append)

lemma available_components_calls_frame:
  assumes "cr < length h" "dr < length h"
  shows "\<exists>new. available_components_calls h cr dr flags = h @ new \<and> length new = length flags"
  using assms
proof (induction flags arbitrary: h)
  case Nil
  then show ?case by simp
next
  case (Cons b flags)
  let ?h1 = "fst (get_list_of_available_components_obj h cr dr b)"
  obtain l where step: "?h1 = h @ [l]"
    using available_components_obj_result [OF Cons.prems] by simp
  have "cr < length ?h1" "dr < length ?h1"
    using Cons.prems by (simp_all add: step)
  from Cons.IH [OF this] obtain new where
    "available_components_calls ?h1 cr dr flags = ?h1 @ new" "length new = length flags"
    by blast
  then show ?case
    by (simp add: step)
qed

text \<open>
  Claim C10. \<^verbatim>\<open>get_list_of_available_components\<close> returns a list object that did not
  exist before the call; it holds \<^verbatim>\<open>components_in_file\<close> followed by
  \<^verbatim>\<open>derived_components\<close>, without the first \<^verbatim>\<open>'tag'\<close> when \<^verbatim>\<open>include_tags\<close> is
  false and \<^verbatim>\<open>'tag'\<close> is there, and every list object that existed before, the two
  lists of the species among them, is as it was. So after any sequence of calls the species
  is the same for \<^verbatim>\<open>get_data\<close>, which gives the same result on it, and a \<^verbatim>\<open>'tag'\<close>
  in \<^verbatim>\<open>components_in_file\<close> is still sorted among the components to read.
\<close>

theorem available_components_fresh_list:
  assumes "cr < length h" and "dr < length h"
  shows "(case get_list_of_available_components_obj h cr dr include_tags of
            (h', r) \<Rightarrow>
              r = length h \<and> length h' = Suc (length h) \<and>
              h' ! r = (if \<not> include_tags \<and> ''tag'' \<in> set (h ! cr @ h ! dr)
                        then remove1 ''tag'' (h ! cr @ h ! dr) else h ! cr @ h ! dr) \<and>
              h' ! r = get_list_of_available_components (species_in_store h cr dr sp) include_tags \<and>
              (\<forall>r'<length h. h' ! r' = h ! r')) \<and>
         (\<forall>flags.
            (let h'' = available_components_calls h cr dr flags
             in h'' ! cr = h ! cr \<and> h'' ! dr = h ! dr \<and>
                species_in_store h'' cr dr sp = species_in_store h cr dr sp \<and>
                get_data registry (species_in_store h'' cr dr sp) time_step components_list
                    data_units time_units =
                  get_data registry (species_in_store h cr dr sp) time_step components_list
                    data_units time_units \<and>
                (''tag'' \<in> set (h ! cr) \<longrightarrow>
                   separate_components (species_in_store h'' cr dr sp) None 0 [''tag'']
                     ([], [], [], []) = Inr ([''tag''], [], [], []))))"
proof (intro conjI allI)
  show "case get_list_of_available_components_obj h cr dr include_tags of
            (h', r) \<Rightarrow>
              r = length h \<and> length h' = Suc (length h) \<and>
              h' ! r = (if \<not> include_tags \<and> ''tag'' \<in> set (h ! cr @ h ! dr)
                        then remove1 ''tag'' (h ! cr @ h ! dr) else h ! cr @ h ! dr) \<and>
              h' ! r = get_list_of_available_components (species_in_store h cr dr sp) include_tags \<and>
              (\<forall>r'<length h. h' ! r' = h ! r')"
    unfolding available_components_obj_result [OF assms, of include_tags]
    by (simp add: nth_append get_list_of_available_components_def species_in_store_def Let_def
        del: remove1_append)
next
  fix flags
  obtain new where new: "available_components_calls h cr dr flags = h @ new"
    using available_components_calls_frame [OF assms] by blast
  have same: "species_in_store (h @ new) cr dr sp = species_in_store h cr dr sp"
    using assms by (simp add: species_in_store_def nth_append)
  show "let h'' = available_components_calls h cr dr flags
             in h'' ! cr = h ! cr \<and> h'' ! dr = h ! dr \<and>
                species_in_store h'' cr dr sp = species_in_store h cr dr sp \<and>
                get_data registry (species_in_store h'' cr dr sp) time_step components_list
                    data_units time_units =
                  get_data registry (species_in_store h cr dr sp) time_step components_list
                    data_units time_units \<and>
                (''tag'' \<in> set (h ! cr) \<longrightarrow>
                   separate_components (species_in_store h'' cr dr sp) None 0 [''tag'']
                     ([], [], [], []) = Inr ([''tag''], [], [], []))"
    unfolding new same Let_def
    using assms by (simp add: nth_append species_in_store_def append_unit_def)
qed

theorem available_components_fresh_list_witness:
  "get_list_of_available_components_obj [[''px'', ''tag''], [''x_prime'']] 0 1 False =
     ([[''px'', ''tag''], [''x_prime''], [''px'', ''x_prime'']], 2) \<and>
   available_components_calls [[''px'', ''tag''], [''x_prime'']] 0 1 [False, True, False] ! 0 =
     [''px'', ''tag''] \<and>
   separate_components
     (species_in_store
        (available_components_calls [[''px'', ''tag''], [''x_prime'']] 0 1 [False, True, False])
        0 1 demo_species)
     None 0 [''tag''] ([], [], [], []) = Inr ([''tag''], [], [], [])"
proof -
  let ?h = "[[''px'', ''tag''], [''x_prime'']]"
  have a: "0 < length ?h" and b: "1 < length ?h"
    by simp_all
  note frame = available_components_fresh_list [OF a b, of False demo_species demo_registry 10
      "[''tag'']" None None]
  from frame have later: "let h'' = available_components_calls ?h 0 1 [False, True, False]
      in h'' ! 0 = ?h ! 0 \<and> h'' ! 1 = ?h ! 1 \<and>
         species_in_store h'' 0 1 demo_species = species_in_store ?h 0 1 demo_species \<and>
         get_data demo_registry (species_in_store h'' 0 1 demo_species) 10 [''tag''] None None =
           get_data demo_registry (species_in_store ?h 0 1 demo_species) 10 [''tag''] None None \<and>
         (''tag'' \<in> set (?h ! 0) \<longrightarrow>
            separate_components (species_in_store h'' 0 1 demo_species) None 0 [''tag'']
              ([], [], [], []) = Inr ([''tag''], [], [], []))"
    by blast
  have one: "get_list_of_available_components_obj ?h 0 1 False =
     ([[''px'', ''tag''], [''x_prime''], [''px'', ''x_prime'']], 2)"
    using available_components_obj_result [OF a b, of False] by simp
  from later have l2: "available_components_calls ?h 0 1 [False, True, False] ! 0 = ?h ! 0"
    and l3: "''tag'' \<in> set (?h ! 0) \<longrightarrow>
            separate_components
              (species_in_store (available_components_calls ?h 0 1 [False, True, False])
                 0 1 demo_species) None 0 [''tag'']
              ([], [], [], []) = Inr ([''tag''], [], [], [])"
    unfolding Let_def by blast+
  have c2: "available_components_calls ?h 0 1 [False, True, False] ! 0 = [''px'', ''tag'']"
    using l2 by (simp only: nth_Cons_0)
  have "''tag'' \<in> set (?h ! 0)"
    by simp
  with l3 have c3: "separate_components
              (species_in_store (available_components_calls ?h 0 1 [False, True, False])
                 0 1 demo_species) None 0 [''tag'']
              ([], [], [], []) = Inr ([''tag''], [], [], [])"
    by blast
  from one c2 c3 show ?thesis
    by (intro conjI)
qed

section \<open>Field folder names\<close>

lemma str_replace_no_dash:
  "CHR ''-'' \<notin> set s \<Longrightarrow> str_replace ''-savg'' [] s = s"
  by (induction s) auto

lemma short_no_match:
  assumes "xs \<noteq> []" "length xs < 5"
  shows "take 5 (xs @ ''-savg'' @ ys) \<noteq> ''-savg''"
proof
  assume eq: "take 5 (xs @ ''-savg'' @ ys) = ''-savg''"
  let ?n = "length xs"
  have "take 5 (xs @ ''-savg'' @ ys) ! ?n = (xs @ ''-savg'' @ ys) ! ?n"
    using assms(2) by (rule nth_take)
  also have "\<dots> = CHR ''-''"
    by (simp add: nth_append)
  finally have dash: "''-savg'' ! ?n = CHR ''-''"
    by (simp only: eq)
  have "0 < ?n"
    using assms(1) by simp
  with assms(2) consider "?n = 1" | "?n = 2" | "?n = 3" | "?n = 4"
    by atomize_elim arith
  then show False
  proof cases
    case 1
    with dash show False by simp
  next
    case 2
    with dash show False by simp
  next
    case 3
    with dash show False by simp
  next
    case 4
    with dash show False by simp
  qed
qed

lemma savg_nomatch:
  "take 5 (c # cs) \<noteq> ''-savg'' \<Longrightarrow>
   str_replace ''-savg'' [] (c # cs) = c # str_replace ''-savg'' [] cs"
  by (auto simp add: eval_nat_numeral)

lemma savg_match:
  "str_replace ''-savg'' [] (''-savg'' @ rest) = str_replace ''-savg'' [] rest"
  by simp

lemma str_replace_savg_append:
  "str_replace ''-savg'' [] (xs @ ''-savg'' @ ys) =
     str_replace ''-savg'' [] xs @ str_replace ''-savg'' [] ys"
proof (induction "length xs" arbitrary: xs rule: less_induct)
  case less
  show ?case
  proof (cases xs)
    case Nil
    then show ?thesis by simp
  next
    case (Cons c cs)
    show ?thesis
    proof (cases "take 5 xs = ''-savg''")
      case True
      have "length (take 5 xs) = 5"
        unfolding True by simp
      then have len: "5 \<le> length xs"
        by simp
      have split: "xs = ''-savg'' @ drop 5 xs"
        using append_take_drop_id [of 5 xs] True by simp
      have shorter: "length (drop 5 xs) < length xs"
        using len by simp
      have l: "str_replace ''-savg'' [] xs = str_replace ''-savg'' [] (drop 5 xs)"
        by (subst split) (rule savg_match)
      have "xs @ ''-savg'' @ ys = ''-savg'' @ (drop 5 xs @ ''-savg'' @ ys)"
        using split by simp
      then have r: "str_replace ''-savg'' [] (xs @ ''-savg'' @ ys) =
          str_replace ''-savg'' [] (drop 5 xs @ ''-savg'' @ ys)"
        by (simp only: savg_match)
      show ?thesis
        unfolding l r by (rule less [OF shorter])
    next
      case False
      have nm: "take 5 (xs @ ''-savg'' @ ys) \<noteq> ''-savg''"
      proof (cases "5 \<le> length xs")
        case True
        with False show ?thesis by simp
      next
        case short: False
        with Cons show ?thesis
          by (intro short_no_match) simp_all
      qed
      have l: "str_replace ''-savg'' [] xs = c # str_replace ''-savg'' [] cs"
        using False unfolding Cons by (rule savg_nomatch)
      have r: "str_replace ''-savg'' [] (xs @ ''-savg'' @ ys) =
          c # str_replace ''-savg'' [] (cs @ ''-savg'' @ ys)"
        using nm unfolding Cons append_Cons by (rule savg_nomatch)
      have shorter: "length cs < length xs"
        by (simp add: Cons)
      show ?thesis
        unfolding l r using less [OF shorter] by simp
    qed
  qed
qed


lemma osiris_name_plain:
  "CHR ''-'' \<notin> set name \<Longrightarrow> get_osiris_field_name name = name"
  by (simp add: get_osiris_field_name_def str_replace_no_dash)

lemma osiris_name_marker:
  "get_osiris_field_name (xs @ ''-savg'' @ ys) =
     get_osiris_field_name xs @ get_osiris_field_name ys"
  unfolding get_osiris_field_name_def by (rule str_replace_savg_append)

lemma osiris_name_decorated:
  assumes "CHR ''-'' \<notin> set name"
  shows "get_osiris_field_name (name @ ''-savg'') = name"
proof -
  have "get_osiris_field_name (name @ ''-savg'' @ []) =
      get_osiris_field_name name @ get_osiris_field_name []"
    by (rule osiris_name_marker)
  with assms show ?thesis
    by (simp add: osiris_name_plain)
qed

lemma strip_savg_suffix_plain:
  "CHR ''-'' \<notin> set name \<Longrightarrow> strip_savg_suffix name = name"
proof -
  assume a: "CHR ''-'' \<notin> set name"
  have "\<not> endswith name ''-savg''"
  proof
    assume "endswith name ''-savg''"
    then have "drop (length name - length ''-savg'') name = ''-savg''"
      by (simp only: endswith_def)
    then have "CHR ''-'' \<in> set (drop (length name - length ''-savg'') name)"
      by (simp only:) simp
    then show False
      using a by (meson in_set_dropD)
  qed
  then show ?thesis
    by (simp add: strip_savg_suffix_def)
qed

lemma strip_savg_suffix_decorated:
  "strip_savg_suffix (name @ ''-savg'') = name"
  by (simp add: strip_savg_suffix_def endswith_def)

lemma standard_name_table:
  "get_standard_visualpic_name n =
     (if n = ''e1'' then Inr ''Ez'' else if n = ''e2'' then Inr ''Ex''
      else if n = ''e3'' then Inr ''Ey'' else if n = ''b1'' then Inr ''Bz''
      else if n = ''b2'' then Inr ''Bx'' else if n = ''b3'' then Inr ''By''
      else if n = ''charge'' then Inr ''rho''
      else Inl (ValueError (UnknownDataName n)))"
  by (simp add: get_standard_visualpic_name_def name_relations_def)

lemma standard_name_error:
  "get_standard_visualpic_name n = Inl e \<Longrightarrow> e = ValueError (UnknownDataName n)"
  by (auto simp: get_standard_visualpic_name_def split: option.splits)

lemma create_field_unknown:
  assumes "get_standard_visualpic_name (get_osiris_field_name field) = Inl e"
  shows "create_field argsort field folder files species =
           Inl (ValueError (UnknownDataName (get_osiris_field_name field)))"
  using assms standard_name_error [OF assms] by (simp add: create_field_def)

lemma create_field_name:
  assumes "create_field argsort field folder files species = Inr fld"
  shows "get_standard_visualpic_name (get_osiris_field_name field) = Inr (ff_name fld) \<and>
         ff_path fld = ''/'' @ get_osiris_field_name field \<and> ff_species_name fld = species"
  using assms
  by (auto simp: create_field_def get_field_path_def split: sum.splits prod.splits)

lemma scan_field_folders_fails:
  assumes "(field, Dir files) \<in> set entries"
    and "get_standard_visualpic_name (get_osiris_field_name field) = Inl e"
  shows "isl (scan_field_folders argsort parent species entries)"
  using assms(1)
proof (induction entries)
  case Nil
  then show ?case by simp
next
  case (Cons entry entries)
  obtain n node where entry: "entry = (n, node)" by (cases entry)
  show ?case
  proof (cases "entry = (field, Dir files)")
    case True
    then show ?thesis
      by (simp add: create_field_unknown [OF assms(2)])
  next
    case False
    with Cons have "isl (scan_field_folders argsort parent species entries)"
      by simp
    then show ?thesis
      by (auto simp: entry split: fsnode.splits sum.splits)
  qed
qed

lemma scan_species_folders_fails:
  assumes "(species, Dir field_entries) \<in> set entries"
    and "isl (scan_field_folders argsort (path_join subdir species) species field_entries)"
  shows "isl (scan_species_folders argsort subdir entries)"
  using assms(1)
proof (induction entries)
  case Nil
  then show ?case by simp
next
  case (Cons entry entries)
  obtain n node where entry: "entry = (n, node)" by (cases entry)
  show ?case
  proof (cases "entry = (species, Dir field_entries)")
    case True
    with assms(2) show ?thesis
      by (auto split: sum.splits)
  next
    case False
    with Cons have "isl (scan_species_folders argsort subdir entries)"
      by simp
    then show ?thesis
      by (auto simp: entry split: fsnode.splits sum.splits)
  qed
qed

lemma scan_folders_fails_fld:
  assumes "(''FLD'', Dir field_entries) \<in> set entries"
    and "isl (scan_field_folders argsort (path_join folder_path ''FLD'') [] field_entries)"
  shows "isl (scan_folders argsort folder_path entries)"
  using assms(1)
proof (induction entries)
  case Nil
  then show ?case by simp
next
  case (Cons entry entries)
  obtain n node where entry: "entry = (n, node)" by (cases entry)
  show ?case
  proof (cases "entry = (''FLD'', Dir field_entries)")
    case True
    with assms(2) show ?thesis
      by (auto split: sum.splits)
  next
    case False
    with Cons have "isl (scan_folders argsort folder_path entries)"
      by simp
    then show ?thesis
      unfolding entry by (auto split: sum.splits)
  qed
qed

lemma scan_folders_fails_density:
  assumes "(''DENSITY'', Dir available_species) \<in> set entries"
    and "isl (scan_species_folders argsort (path_join folder_path ''DENSITY'') available_species)"
  shows "isl (scan_folders argsort folder_path entries)"
  using assms(1)
proof (induction entries)
  case Nil
  then show ?case by simp
next
  case (Cons entry entries)
  obtain n node where entry: "entry = (n, node)" by (cases entry)
  show ?case
  proof (cases "entry = (''DENSITY'', Dir available_species)")
    case True
    with assms(2) show ?thesis
      by (auto split: sum.splits)
  next
    case False
    with Cons have "isl (scan_folders argsort folder_path entries)"
      by simp
    then show ?thesis
      unfolding entry by (auto split: sum.splits)
  qed
qed


lemma osiris_name_unmarked:
  "\<not> sublist ''-savg'' name \<Longrightarrow> get_osiris_field_name name = name"
proof (induction name)
  case Nil
  then show ?case by (simp add: get_osiris_field_name_def)
next
  case (Cons c cs)
  from Cons.prems have no_prefix: "\<not> prefix ''-savg'' (c # cs)" and rest: "\<not> sublist ''-savg'' cs"
    by (simp_all add: sublist_Cons_right)
  have "take 5 (c # cs) \<noteq> ''-savg''"
  proof
    assume "take 5 (c # cs) = ''-savg''"
    then have "prefix ''-savg'' (c # cs)"
      by (metis take_is_prefix)
    with no_prefix show False ..
  qed
  from savg_nomatch [OF this] Cons.IH [OF rest] show ?case
    by (simp only: get_osiris_field_name_def)
qed

lemma scan_field_folders_first_error:
  assumes "\<not> isl (scan_field_folders argsort parent species before)"
    and "create_field argsort field (path_join parent field) (map fst files) species = Inl e"
  shows "scan_field_folders argsort parent species (before @ (field, Dir files) # after) = Inl e"
  using assms(1)
proof (induction before)
  case Nil
  show ?case by (simp add: assms(2))
next
  case (Cons entry before)
  obtain n node where entry: "entry = (n, node)" by (cases entry)
  from Cons.prems have "\<not> isl (scan_field_folders argsort parent species before)"
    unfolding entry by (auto split: fsnode.splits sum.splits)
  from Cons.IH [OF this] Cons.prems show ?case
    unfolding entry by (auto split: fsnode.splits sum.splits)
qed

lemma scan_species_folders_first_error:
  assumes "\<not> isl (scan_species_folders argsort subdir before)"
    and "scan_field_folders argsort (path_join subdir species) species field_entries = Inl e"
  shows "scan_species_folders argsort subdir (before @ (species, Dir field_entries) # after) =
           Inl e"
  using assms(1)
proof (induction before)
  case Nil
  show ?case by (simp add: assms(2))
next
  case (Cons entry before)
  obtain n node where entry: "entry = (n, node)" by (cases entry)
  from Cons.prems have "\<not> isl (scan_species_folders argsort subdir before)"
    unfolding entry by (auto split: fsnode.splits sum.splits)
  from Cons.IH [OF this] Cons.prems show ?case
    unfolding entry by (auto split: fsnode.splits sum.splits)
qed

lemma scan_folders_first_error:
  assumes "\<not> isl (scan_folders argsort folder_path before)"
    and "folder = ''FLD'' \<and> scan_field_folders argsort (path_join folder_path ''FLD'') []
            entries = Inl e \<or>
         folder = ''DENSITY'' \<and> scan_species_folders argsort (path_join folder_path ''DENSITY'')
            entries = Inl e"
  shows "scan_folders argsort folder_path (before @ (folder, Dir entries) # after) = Inl e"
  using assms(1)
proof (induction before)
  case Nil
  from assms(2) show ?case by auto
next
  case (Cons entry before)
  obtain n node where entry: "entry = (n, node)" by (cases entry)
  from Cons.prems have "\<not> isl (scan_folders argsort folder_path before)"
    unfolding entry by (auto split: sum.splits)
  from Cons.IH [OF this] Cons.prems show ?case
    unfolding entry by (auto split: sum.splits)
qed


text \<open>
  Claim C7, as amended. \<^verbatim>\<open>_get_osiris_field_name\<close> takes every occurrence of
  \<^verbatim>\<open>-savg\<close> out of the folder's name, wherever it stands, not only one at the end: a
  name in which \<^verbatim>\<open>-savg\<close> does not occur is left as it is, and a name with an
  occurrence becomes what is made of the part before it followed by what is made of the
  part after it. For a name without a hyphen, bare or followed by \<^verbatim>\<open>-savg\<close>, this is
  the same as cutting the suffix off. The result is looked up in the table \<^verbatim>\<open>e1\<close> to
  \<^verbatim>\<open>Ez\<close>, \<^verbatim>\<open>e2\<close> to \<^verbatim>\<open>Ex\<close>, \<^verbatim>\<open>e3\<close> to \<^verbatim>\<open>Ey\<close>, \<^verbatim>\<open>b1\<close> to \<^verbatim>\<open>Bz\<close>,
  \<^verbatim>\<open>b2\<close> to \<^verbatim>\<open>Bx\<close>, \<^verbatim>\<open>b3\<close> to \<^verbatim>\<open>By\<close>, \<^verbatim>\<open>charge\<close> to \<^verbatim>\<open>rho\<close>; so
  \<^verbatim>\<open>e1-savg\<close> becomes \<^verbatim>\<open>Ez\<close>, and a field that is created carries the name found in
  the table. A name whose remainder is not in the table makes \<^verbatim>\<open>_create_field\<close> fail
  with the \<^verbatim>\<open>ValueError\<close> \<^verbatim>\<open>Unknown data name\<close> for that remainder, whatever the
  folder holds. A scan that has such a folder under \<^verbatim>\<open>FLD\<close> or under a species folder
  of \<^verbatim>\<open>DENSITY\<close> fails; when nothing that the scan visits before that folder fails, the
  scan fails with this very \<^verbatim>\<open>ValueError\<close>.
\<close>

theorem field_folder_standard_name:
  "(\<not> sublist ''-savg'' name \<longrightarrow> get_osiris_field_name name = name) \<and>
   get_osiris_field_name (xs @ ''-savg'' @ ys) =
     get_osiris_field_name xs @ get_osiris_field_name ys \<and>
   (CHR ''-'' \<notin> set name \<longrightarrow>
      get_osiris_field_name (name @ ''-savg'') = name \<and>
      get_standard_visualpic_name (get_osiris_field_name name) =
        standard_name_suffix_reading name \<and>
      get_standard_visualpic_name (get_osiris_field_name (name @ ''-savg'')) =
        standard_name_suffix_reading (name @ ''-savg'')) \<and>
   get_standard_visualpic_name n =
     (if n = ''e1'' then Inr ''Ez'' else if n = ''e2'' then Inr ''Ex''
      else if n = ''e3'' then Inr ''Ey'' else if n = ''b1'' then Inr ''Bz''
      else if n = ''b2'' then Inr ''Bx'' else if n = ''b3'' then Inr ''By''
      else if n = ''charge'' then Inr ''rho''
      else Inl (ValueError (UnknownDataName n))) \<and>
   get_standard_visualpic_name (get_osiris_field_name ''e1-savg'') = Inr ''Ez'' \<and>
   (\<forall>fld. create_field argsort field folder files species = Inr fld \<longrightarrow>
      get_standard_visualpic_name (get_osiris_field_name field) = Inr (ff_name fld)) \<and>
   (\<forall>e. get_standard_visualpic_name (get_osiris_field_name field) = Inl e \<longrightarrow>
      create_field argsort field folder files species =
        Inl (ValueError (UnknownDataName (get_osiris_field_name field))) \<and>
      ((''FLD'', Dir domain_fields) \<in> set folders_in_path \<and>
       (field, Dir files') \<in> set domain_fields \<longrightarrow>
         isl (get_list_of_fields argsort folder_path (Dir folders_in_path))) \<and>
      ((''DENSITY'', Dir available_species) \<in> set folders_in_path \<and>
       (species, Dir species_fields) \<in> set available_species \<and>
       (field, Dir files') \<in> set species_fields \<longrightarrow>
         isl (get_list_of_fields argsort folder_path (Dir folders_in_path))) \<and>
      (folders_in_path =
           before @ (''FLD'', Dir (before_fields @ (field, Dir files') # after_fields)) # after \<and>
         \<not> isl (scan_folders argsort folder_path before) \<and>
         \<not> isl (scan_field_folders argsort (path_join folder_path ''FLD'') [] before_fields) \<longrightarrow>
           get_list_of_fields argsort folder_path (Dir folders_in_path) =
             Inl (ValueError (UnknownDataName (get_osiris_field_name field)))) \<and>
      (folders_in_path =
           before @
           (''DENSITY'',
            Dir (before_species @
                 (species, Dir (before_fields @ (field, Dir files') # after_fields)) #
                 after_species)) # after \<and>
         \<not> isl (scan_folders argsort folder_path before) \<and>
         \<not> isl (scan_species_folders argsort (path_join folder_path ''DENSITY'')
                  before_species) \<and>
         \<not> isl (scan_field_folders argsort
                  (path_join (path_join folder_path ''DENSITY'') species) species
                  before_fields) \<longrightarrow>
           get_list_of_fields argsort folder_path (Dir folders_in_path) =
             Inl (ValueError (UnknownDataName (get_osiris_field_name field)))))"
proof (intro conjI allI impI)
  assume "\<not> sublist ''-savg'' name"
  then show "get_osiris_field_name name = name"
    by (rule osiris_name_unmarked)
next
  show "get_osiris_field_name (xs @ ''-savg'' @ ys) =
     get_osiris_field_name xs @ get_osiris_field_name ys"
    by (rule osiris_name_marker)
next
  assume "CHR ''-'' \<notin> set name"
  then show "get_osiris_field_name (name @ ''-savg'') = name"
    by (rule osiris_name_decorated)
next
  assume "CHR ''-'' \<notin> set name"
  then show "get_standard_visualpic_name (get_osiris_field_name name) =
        standard_name_suffix_reading name"
    by (simp add: osiris_name_plain standard_name_suffix_reading_def strip_savg_suffix_plain)
next
  assume "CHR ''-'' \<notin> set name"
  then show "get_standard_visualpic_name (get_osiris_field_name (name @ ''-savg'')) =
        standard_name_suffix_reading (name @ ''-savg'')"
    by (simp add: osiris_name_decorated standard_name_suffix_reading_def
        strip_savg_suffix_decorated)
next
  show "get_standard_visualpic_name n =
     (if n = ''e1'' then Inr ''Ez'' else if n = ''e2'' then Inr ''Ex''
      else if n = ''e3'' then Inr ''Ey'' else if n = ''b1'' then Inr ''Bz''
      else if n = ''b2'' then Inr ''Bx'' else if n = ''b3'' then Inr ''By''
      else if n = ''charge'' then Inr ''rho''
      else Inl (ValueError (UnknownDataName n)))"
    by (rule standard_name_table)
next
  have "get_osiris_field_name (''e1'' @ ''-savg'') = ''e1''"
    by (rule osiris_name_decorated) simp
  then show "get_standard_visualpic_name (get_osiris_field_name ''e1-savg'') = Inr ''Ez''"
    by (simp add: standard_name_table)
next
  fix fld
  assume "create_field argsort field folder files species = Inr fld"
  then show "get_standard_visualpic_name (get_osiris_field_name field) = Inr (ff_name fld)"
    using create_field_name by blast
next
  fix e
  assume "get_standard_visualpic_name (get_osiris_field_name field) = Inl e"
  then show "create_field argsort field folder files species =
        Inl (ValueError (UnknownDataName (get_osiris_field_name field)))"
    by (rule create_field_unknown)
next
  fix e
  assume unknown: "get_standard_visualpic_name (get_osiris_field_name field) = Inl e"
    and "(''FLD'', Dir domain_fields) \<in> set folders_in_path \<and>
       (field, Dir files') \<in> set domain_fields"
  then show "isl (get_list_of_fields argsort folder_path (Dir folders_in_path))"
    by (auto simp: get_list_of_fields_def
        intro: scan_folders_fails_fld scan_field_folders_fails)
next
  fix e
  assume unknown: "get_standard_visualpic_name (get_osiris_field_name field) = Inl e"
    and "(''DENSITY'', Dir available_species) \<in> set folders_in_path \<and>
       (species, Dir species_fields) \<in> set available_species \<and>
       (field, Dir files') \<in> set species_fields"
  then show "isl (get_list_of_fields argsort folder_path (Dir folders_in_path))"
    by (auto simp: get_list_of_fields_def
        intro: scan_folders_fails_density scan_species_folders_fails scan_field_folders_fails)
next
  fix e
  let ?err = "ValueError (UnknownDataName (get_osiris_field_name field))"
  assume unknown: "get_standard_visualpic_name (get_osiris_field_name field) = Inl e"
    and tree: "folders_in_path =
           before @ (''FLD'', Dir (before_fields @ (field, Dir files') # after_fields)) # after \<and>
         \<not> isl (scan_folders argsort folder_path before) \<and>
         \<not> isl (scan_field_folders argsort (path_join folder_path ''FLD'') [] before_fields)"
  have "scan_field_folders argsort (path_join folder_path ''FLD'') []
      (before_fields @ (field, Dir files') # after_fields) = Inl ?err"
    using tree by (intro scan_field_folders_first_error create_field_unknown [OF unknown]) simp
  then have "scan_folders argsort folder_path
      (before @ (''FLD'', Dir (before_fields @ (field, Dir files') # after_fields)) # after) =
      Inl ?err"
    using tree by (intro scan_folders_first_error) simp_all
  with tree show "get_list_of_fields argsort folder_path (Dir folders_in_path) = Inl ?err"
    by (simp add: get_list_of_fields_def)
next
  fix e
  let ?err = "ValueError (UnknownDataName (get_osiris_field_name field))"
  let ?fields = "before_fields @ (field, Dir files') # after_fields"
  let ?all_species = "before_species @ (species, Dir ?fields) # after_species"
  assume unknown: "get_standard_visualpic_name (get_osiris_field_name field) = Inl e"
    and tree: "folders_in_path =
           before @
           (''DENSITY'',
            Dir (before_species @
                 (species, Dir (before_fields @ (field, Dir files') # after_fields)) #
                 after_species)) # after \<and>
         \<not> isl (scan_folders argsort folder_path before) \<and>
         \<not> isl (scan_species_folders argsort (path_join folder_path ''DENSITY'')
                  before_species) \<and>
         \<not> isl (scan_field_folders argsort
                  (path_join (path_join folder_path ''DENSITY'') species) species
                  before_fields)"
  have "scan_field_folders argsort (path_join (path_join folder_path ''DENSITY'') species)
      species ?fields = Inl ?err"
    using tree by (intro scan_field_folders_first_error create_field_unknown [OF unknown]) simp
  then have "scan_species_folders argsort (path_join folder_path ''DENSITY'') ?all_species =
      Inl ?err"
    using tree by (intro scan_species_folders_first_error) simp_all
  then have "scan_folders argsort folder_path
      (before @ (''DENSITY'', Dir ?all_species) # after) = Inl ?err"
    using tree by (intro scan_folders_first_error) simp_all
  with tree show "get_list_of_fields argsort folder_path (Dir folders_in_path) = Inl ?err"
    by (simp add: get_list_of_fields_def)
qed


text \<open>
  The claim C7 as it was stated, with the decoration a suffix, fails on a folder that has
  \<^verbatim>\<open>-savg\<close> inside its name: the code finds \<^verbatim>\<open>e-savg1\<close> in the table as \<^verbatim>\<open>e1\<close>,
  while cutting a suffix off leaves the name as it is, which the table does not have.
\<close>

theorem suffix_reading_counterexample:
  "get_standard_visualpic_name (get_osiris_field_name ''e-savg1'') = Inr ''Ez'' \<and>
   standard_name_suffix_reading ''e-savg1'' = Inl (ValueError (UnknownDataName ''e-savg1''))"
  by (simp add: get_osiris_field_name_def standard_name_table standard_name_suffix_reading_def
      strip_savg_suffix_def endswith_def)

theorem field_folder_standard_name_witness:
  "get_osiris_field_name ''e-1'' = ''e-1'' \<and>
   get_osiris_field_name ''e1-savg'' = ''e1'' \<and>
   get_standard_visualpic_name (get_osiris_field_name ''e1-savg'') = Inr ''Ez'' \<and>
   create_field argsort_stable ''x9-savg'' ''sim/FLD/x9-savg'' [] [] =
     Inl (ValueError (UnknownDataName ''x9'')) \<and>
   get_list_of_fields argsort_stable ''sim''
     (Dir [(''HIST'', Dir []), (''FLD'', Dir [(''e1'', Dir []), (''x9-savg'', Dir [])])]) =
     Inl (ValueError (UnknownDataName ''x9''))"
proof -
  note inst = field_folder_standard_name [where name = "''e1''" and field = "''x9-savg''"
      and argsort = argsort_stable and folder = "''sim/FLD/x9-savg''" and files = "[]"
      and species = "[]" and files' = "[]"
      and folders_in_path =
        "[(''HIST'', Dir []), (''FLD'', Dir [(''e1'', Dir []), (''x9-savg'', Dir [])])]"
      and folder_path = "''sim''" and before = "[(''HIST'', Dir [])]"
      and before_fields = "[(''e1'', Dir [])]" and after_fields = "[]" and after = "[]"]
  have stray: "\<not> sublist ''-savg'' ''e-1''"
    by (simp add: sublist_Cons_right)
  from field_folder_standard_name [where name = "''e-1''"] stray
  have a0: "get_osiris_field_name ''e-1'' = ''e-1''"
    by blast
  have plain: "CHR ''-'' \<notin> set ''e1''"
    by simp
  have x9: "get_osiris_field_name ''x9-savg'' = ''x9''"
    using osiris_name_decorated [of "''x9''"] by simp
  have unknown: "get_standard_visualpic_name (get_osiris_field_name ''x9-savg'') =
      Inl (ValueError (UnknownDataName ''x9''))"
    unfolding x9 by (simp add: standard_name_table)
  have e1: "get_osiris_field_name ''e1'' = ''e1''"
    by (rule osiris_name_plain) simp
  have tree: "[(''HIST'', Dir []), (''FLD'', Dir [(''e1'', Dir []), (''x9-savg'', Dir [])])] =
        [(''HIST'', Dir [])] @
        (''FLD'', Dir ([(''e1'', Dir [])] @ (''x9-savg'', Dir []) # [])) # [] \<and>
      \<not> isl (scan_folders argsort_stable ''sim'' [(''HIST'', Dir [])]) \<and>
      \<not> isl (scan_field_folders argsort_stable (path_join ''sim'' ''FLD'') []
               [(''e1'', Dir [])])"
    by (simp add: create_field_def e1 standard_name_table get_files_and_timesteps_def
        select_h5_files_def take_positions_def argsort_stable_def Let_def)
  from inst plain have a: "get_osiris_field_name (''e1'' @ ''-savg'') = ''e1''"
    by blast
  from inst have b: "get_standard_visualpic_name (get_osiris_field_name ''e1-savg'') = Inr ''Ez''"
    by blast
  from inst unknown have c: "create_field argsort_stable ''x9-savg'' ''sim/FLD/x9-savg'' [] [] =
      Inl (ValueError (UnknownDataName (get_osiris_field_name ''x9-savg'')))"
    by blast
  from inst unknown tree have d: "get_list_of_fields argsort_stable ''sim''
      (Dir [(''HIST'', Dir []), (''FLD'', Dir [(''e1'', Dir []), (''x9-savg'', Dir [])])]) =
      Inl (ValueError (UnknownDataName (get_osiris_field_name ''x9-savg'')))"
    by blast
  from a0 a b c d show ?thesis
    by (simp add: x9)
qed

section \<open>Files and time steps of a field folder\<close>























section \<open>Derived components\<close>

lemma get_definition_name:
  "get_definition registry n = Inr d \<Longrightarrow> dd_name d = n"
  by (induction registry) (auto split: if_splits)

lemma bind_logged_Inr:
  assumes "bind_logged m f = (Inr y, calls)"
  shows "\<exists>x c1 c2. m = (Inr x, c1) \<and> f x = (Inr y, c2) \<and> calls = c1 @ c2"
  using assms
  by (cases m) (auto simp: bind_logged_def split: sum.splits prod.splits)

lemma derived_data_loop_Cons:
  assumes "get_definition registry name = Inr d"
  shows "derived_data_loop registry sp fp tu (name # rest) acc =
     bind_logged
       (get_file_data sp fp (dd_requirements d)
          (Some (replicate (length (dd_requirements d)) ''SI'')) tu)
       (\<lambda>required_data.
          case dd_requirements d of
            [] \<Rightarrow> (Inl IndexError, [])
          | first_req # _ \<Rightarrow>
              (case required_data first_req of
                 None \<Rightarrow> (Inl (KeyError first_req), [])
               | Some (_, md) \<Rightarrow>
                   derived_data_loop registry sp fp tu rest
                     (acc(dd_name d \<mapsto>
                        (dd_recipe d required_data,
                         md(''units'' \<mapsto> MStr (dd_units d)))))))"
  by (simp add: assms Let_def)

lemma derived_data_loop_success:
  assumes "derived_data_loop registry sp fp tu names acc = (Inr out, calls)"
  shows "calls = concat (map (\<lambda>n. snd (fetch_requirements registry sp fp tu n)) names) \<and>
         (\<forall>n\<in>set names. derived_entry registry sp fp tu n \<noteq> None) \<and>
         out = (\<lambda>k. if k \<in> set names then derived_entry registry sp fp tu k else acc k)"
  using assms
proof (induction names arbitrary: acc calls)
  case Nil
  then show ?case by auto
next
  case (Cons name rest)
  from Cons.prems obtain d where d: "get_definition registry name = Inr d"
    by (cases "get_definition registry name") auto
  have nm: "dd_name d = name"
    using d by (rule get_definition_name)
  let ?reqs = "dd_requirements d"
  let ?fetch = "get_file_data sp fp ?reqs (Some (replicate (length ?reqs) ''SI'')) tu"
  have fetch: "fetch_requirements registry sp fp tu name = ?fetch"
    by (simp add: fetch_requirements_def d)
  let ?body = "\<lambda>required_data.
          case ?reqs of
            [] \<Rightarrow> (Inl IndexError, [])
          | first_req # _ \<Rightarrow>
              (case required_data first_req of
                 None \<Rightarrow> (Inl (KeyError first_req), [])
               | Some (_, md) \<Rightarrow>
                   derived_data_loop registry sp fp tu rest
                     (acc(dd_name d \<mapsto>
                        (dd_recipe d required_data,
                         md(''units'' \<mapsto> MStr (dd_units d))))))"
  from Cons.prems have "bind_logged ?fetch ?body = (Inr out, calls)"
    unfolding derived_data_loop_Cons [OF d] .
  from bind_logged_Inr [OF this] obtain req c1 c2 where
    f: "?fetch = (Inr req, c1)" and c: "calls = c1 @ c2" and b: "?body req = (Inr out, c2)"
    by (elim exE conjE)
  from b obtain first_req more where reqs: "?reqs = first_req # more"
    by (cases ?reqs) simp_all
  from b obtain a md where first: "req first_req = Some (a, md)"
    unfolding reqs by (cases "req first_req") auto
  let ?entry = "(dd_recipe d req, md(''units'' \<mapsto> MStr (dd_units d)))"
  from b have rest: "derived_data_loop registry sp fp tu rest
      (acc(name \<mapsto> ?entry)) = (Inr out, c2)"
    unfolding reqs by (simp add: first nm)
  have fetched: "fst (fetch_requirements registry sp fp tu name) = Inr req"
    and fetch_calls: "snd (fetch_requirements registry sp fp tu name) = c1"
    by (simp_all only: fetch f fst_conv snd_conv)
  have entry: "derived_entry registry sp fp tu name = Some ?entry"
    by (simp add: derived_entry_def d fetched reqs first)
  note IH = Cons.IH [OF rest]
  have 1: "calls = concat (map (\<lambda>n. snd (fetch_requirements registry sp fp tu n)) (name # rest))"
    using IH c by (simp add: fetch_calls)
  have 2: "\<forall>n\<in>set (name # rest). derived_entry registry sp fp tu n \<noteq> None"
    using IH entry by simp
  have 3: "out = (\<lambda>k. if k \<in> set (name # rest) then derived_entry registry sp fp tu k else acc k)"
  proof
    fix k
    from IH have "out k = (if k \<in> set rest then derived_entry registry sp fp tu k
        else (acc(name \<mapsto> ?entry)) k)"
      by simp
    then show "out k = (if k \<in> set (name # rest) then derived_entry registry sp fp tu k else acc k)"
      using entry by simp
  qed
  from 1 2 3 show ?case
    by (intro conjI)
qed

lemma map_of_constant:
  assumes "\<forall>p\<in>set l. snd p = v"
  shows "map_of l k = (if k \<in> fst ` set l then Some v else None)"
  using assms by (induction l) auto

lemma py_dict_replicate:
  "py_dict (zip reqs (replicate (length reqs) v)) =
     (\<lambda>r. if r \<in> set reqs then Some v else None)"
proof
  fix r
  let ?l = "rev (zip reqs (replicate (length reqs) v))"
  have "\<forall>p\<in>set ?l. snd p = v"
    by (auto simp: set_zip)
  moreover have "set (map fst (zip reqs (replicate (length reqs) v))) = set reqs"
    by (subst map_fst_zip) simp_all
  then have "fst ` set ?l = set reqs"
    by (simp only: set_map set_rev)
  ultimately show "py_dict (zip reqs (replicate (length reqs) v)) r =
      (if r \<in> set reqs then Some v else None)"
    using map_of_constant [of ?l v r] by (simp only: py_dict_def)
qed

lemma zip_filtered_units:
  "length comps = length us \<Longrightarrow>
   zip (filter P comps) (map snd (filter (\<lambda>(c, u). P c) (zip comps us))) =
     filter (\<lambda>(c, u). P c) (zip comps us)"
  by (induction comps us rule: list_induct2) auto

lemma fetch_requirements_success:
  assumes "fst (fetch_requirements registry sp fp tu n) = Inr req"
  shows "\<exists>d data. get_definition registry n = Inr d \<and>
           read_particle_data sp fp (species_name sp) (dd_requirements d) = Inr data \<and>
           convert_particle_data_units sp data
             (\<lambda>r. if r \<in> set (dd_requirements d) then Some ''SI'' else None) tu = Inr req \<and>
           snd (fetch_requirements registry sp fp tu n) =
             [ReadCall fp (species_name sp) (dd_requirements d),
              ConvertCall data (\<lambda>r. if r \<in> set (dd_requirements d) then Some ''SI'' else None) tu]"
proof -
  from assms obtain d where d: "get_definition registry n = Inr d"
    by (cases "get_definition registry n") (auto simp: fetch_requirements_def)
  let ?reqs = "dd_requirements d"
  have f: "fetch_requirements registry sp fp tu n =
      get_file_data sp fp ?reqs (Some (replicate (length ?reqs) ''SI'')) tu"
    by (simp add: fetch_requirements_def d)
  from assms obtain data where data: "read_particle_data sp fp (species_name sp) ?reqs = Inr data"
    unfolding f
    by (cases "read_particle_data sp fp (species_name sp) ?reqs")
      (auto simp: get_file_data_def bind_logged_def)
  from assms data d show ?thesis
    unfolding f
    by (simp add: get_file_data_def bind_logged_def convert_data_units_def py_dict_replicate
        Let_def)
qed

lemma derived_entry_Some:
  assumes "derived_entry registry sp fp tu n \<noteq> None"
  shows "\<exists>d req first_req more a md.
           get_definition registry n = Inr d \<and>
           fst (fetch_requirements registry sp fp tu n) = Inr req \<and>
           dd_requirements d = first_req # more \<and>
           req first_req = Some (a, md) \<and>
           derived_entry registry sp fp tu n =
             Some (dd_recipe d req, md(''units'' \<mapsto> MStr (dd_units d)))"
  using assms
  by (auto simp: derived_entry_def split: sum.splits list.splits option.splits)

lemma calculate_derived_data_success:
  assumes "calculate_derived_data registry sp fp names target tu = (Inr out, calls)"
  shows "\<exists>dd. dd = (\<lambda>k. if k \<in> set names then derived_entry registry sp fp tu k else None) \<and>
           (\<forall>n\<in>set names. derived_entry registry sp fp tu n \<noteq> None) \<and>
           (target = None \<longrightarrow> out = dd \<and>
              calls = concat (map (\<lambda>n. snd (fetch_requirements registry sp fp tu n)) names)) \<and>
           (\<forall>us. target = Some us \<longrightarrow>
              convert_particle_data_units sp dd (py_dict (zip names us)) tu = Inr out \<and>
              calls = concat (map (\<lambda>n. snd (fetch_requirements registry sp fp tu n)) names) @
                [ConvertCall dd (py_dict (zip names us)) tu])"
proof -
  from assms have "bind_logged (derived_data_loop registry sp fp tu names Map.empty)
      (\<lambda>derived_data_dict. convert_data_units sp derived_data_dict names target tu) =
      (Inr out, calls)"
    by (simp only: calculate_derived_data_def)
  from bind_logged_Inr [OF this] obtain dd c1 c2 where
    loop: "derived_data_loop registry sp fp tu names Map.empty = (Inr dd, c1)"
    and conv: "convert_data_units sp dd names target tu = (Inr out, c2)"
    and calls: "calls = c1 @ c2"
    by (elim exE conjE)
  note l = derived_data_loop_success [OF loop]
  from l have dd: "dd = (\<lambda>k. if k \<in> set names then derived_entry registry sp fp tu k else None)"
    by simp
  from l have c1: "c1 = concat (map (\<lambda>n. snd (fetch_requirements registry sp fp tu n)) names)"
    by simp
  from l have ok: "\<forall>n\<in>set names. derived_entry registry sp fp tu n \<noteq> None"
    by simp
  have none: "out = dd \<and> calls = c1" if "target = None"
    using conv calls that by (simp add: convert_data_units_def)
  have some: "convert_particle_data_units sp dd (py_dict (zip names us)) tu = Inr out \<and>
      calls = c1 @ [ConvertCall dd (py_dict (zip names us)) tu]" if "target = Some us" for us
    using conv calls that by (simp add: convert_data_units_def Let_def)
  from dd ok none some show ?thesis
    unfolding c1 by blast
qed

lemma get_data_success_units:
  assumes "get_data registry sp ts comps du tu = (Inr out, calls)"
  shows "\<forall>units. du = Some units \<longrightarrow> length comps = length units"
proof (intro allI impI)
  fix units
  assume du: "du = Some units"
  show "length comps = length units"
  proof (rule ccontr)
    assume "length comps \<noteq> length units"
    then have "get_data registry sp ts comps du tu =
        (Inl (ValueError (LengthMismatch (length comps) (length units))), [])"
      by (simp add: get_data_def du)
    with assms show False by simp
  qed
qed

lemma get_data_success_known:
  assumes "get_data registry sp ts comps du tu = (Inr out, calls)"
  shows "\<forall>c\<in>set comps. c \<in> set (components_in_file sp) \<or> c \<in> set (derived_components sp)"
proof (cases "find (\<lambda>c. c \<notin> set (components_in_file sp) \<and> c \<notin> set (derived_components sp)) comps")
  case None
  then show ?thesis
    by (auto simp: find_None_iff)
next
  case (Some bad)
  from get_data_unknown [OF Some get_data_success_units [OF assms]] assms
  show ?thesis by simp
qed

lemma raw_units_explicit:
  "units_result du (units_for P comps du 0) =
     (case du of
        None \<Rightarrow> None
      | Some us \<Rightarrow> Some (map snd (filter (\<lambda>(c, u). P c) (zip comps us))))"
  by (simp add: units_result_def units_for_def split: option.splits)

lemma get_data_success:
  assumes "get_data registry sp ts comps du tu = (Inr out, calls)"
  shows "\<exists>fp folder c1 dd derived_out.
     get_file_path sp ts = Inr fp \<and>
     get_file_data sp fp (requested_raw sp comps)
       (case du of
          None \<Rightarrow> None
        | Some us \<Rightarrow>
            Some (map snd (filter (\<lambda>(c, u). c \<in> set (components_in_file sp)) (zip comps us))))
       tu = (Inr folder, c1) \<and>
     dd = (\<lambda>k. if k \<in> set (requested_derived sp comps)
                then derived_entry registry sp fp tu k else None) \<and>
     (\<forall>n\<in>set (requested_derived sp comps). derived_entry registry sp fp tu n \<noteq> None) \<and>
     out = folder ++ derived_out \<and>
     (du = None \<longrightarrow> derived_out = dd \<and>
        calls = c1 @ concat (map (\<lambda>n. snd (fetch_requirements registry sp fp tu n))
                         (requested_derived sp comps))) \<and>
     (\<forall>us. du = Some us \<longrightarrow>
        convert_particle_data_units sp dd
          (py_dict (filter (\<lambda>(c, u). c \<notin> set (components_in_file sp)) (zip comps us))) tu =
          Inr derived_out \<and>
        calls = c1 @ concat (map (\<lambda>n. snd (fetch_requirements registry sp fp tu n))
                         (requested_derived sp comps)) @
          [ConvertCall dd
             (py_dict (filter (\<lambda>(c, u). c \<notin> set (components_in_file sp)) (zip comps us))) tu])"
proof -
  note units = get_data_success_units [OF assms]
  note known = get_data_success_known [OF assms]
  let ?raw_units = "units_result du (units_for (\<lambda>c. c \<in> set (components_in_file sp)) comps du 0)"
  let ?der_units = "units_result du (units_for (\<lambda>c. c \<notin> set (components_in_file sp)) comps du 0)"
  from assms obtain fp where fp: "get_file_path sp ts = Inr fp"
    unfolding get_data_known [OF known units]
    by (cases "get_file_path sp ts") auto
  from assms have "bind_logged
            (get_file_data sp fp (requested_raw sp comps) ?raw_units tu)
            (\<lambda>folder_data.
               bind_logged
                 (calculate_derived_data registry sp fp (requested_derived sp comps) ?der_units tu)
                 (\<lambda>derived_data. (Inr (folder_data ++ derived_data), []))) = (Inr out, calls)"
    unfolding get_data_known [OF known units] fp requested_raw_def requested_derived_def
    by simp
  from bind_logged_Inr [OF this] obtain folder c1 c2 where
    folder: "get_file_data sp fp (requested_raw sp comps) ?raw_units tu = (Inr folder, c1)"
    and inner: "bind_logged
                 (calculate_derived_data registry sp fp (requested_derived sp comps) ?der_units tu)
                 (\<lambda>derived_data. (Inr (folder ++ derived_data), [])) = (Inr out, c2)"
    and calls: "calls = c1 @ c2"
    by (elim exE conjE)
  from bind_logged_Inr [OF inner] obtain derived_out c3 where
    calc: "calculate_derived_data registry sp fp (requested_derived sp comps) ?der_units tu =
        (Inr derived_out, c3)"
    and out: "out = folder ++ derived_out" and c2: "c2 = c3"
    by (elim exE conjE) simp
  note cd = calculate_derived_data_success [OF calc]
  let ?dd = "\<lambda>k. if k \<in> set (requested_derived sp comps)
                then derived_entry registry sp fp tu k else None"
  let ?loop = "concat (map (\<lambda>n. snd (fetch_requirements registry sp fp tu n))
                         (requested_derived sp comps))"
  from cd have ok: "\<forall>n\<in>set (requested_derived sp comps). derived_entry registry sp fp tu n \<noteq> None"
    by blast
  have none: "derived_out = ?dd \<and> calls = c1 @ ?loop" if "du = None"
  proof -
    from that have "?der_units = None"
      by (simp add: units_result_def)
    with cd have "derived_out = ?dd \<and> c3 = ?loop"
      by simp
    with calls c2 show ?thesis by simp
  qed
  have some: "convert_particle_data_units sp ?dd
          (py_dict (filter (\<lambda>(c, u). c \<notin> set (components_in_file sp)) (zip comps us))) tu =
          Inr derived_out \<and>
        calls = c1 @ ?loop @
          [ConvertCall ?dd
             (py_dict (filter (\<lambda>(c, u). c \<notin> set (components_in_file sp)) (zip comps us))) tu]"
    if du: "du = Some us" for us
  proof -
    let ?us' = "map snd (filter (\<lambda>(c, u). c \<notin> set (components_in_file sp)) (zip comps us))"
    from du units have len: "length comps = length us"
      by simp
    from du have u: "?der_units = Some ?us'"
      by (simp add: units_result_def units_for_def)
    have z: "zip (requested_derived sp comps) ?us' =
        filter (\<lambda>(c, u). c \<notin> set (components_in_file sp)) (zip comps us)"
      unfolding requested_derived_def by (rule zip_filtered_units [OF len])
    from cd u have "convert_particle_data_units sp ?dd
          (py_dict (zip (requested_derived sp comps) ?us')) tu = Inr derived_out \<and>
        c3 = ?loop @ [ConvertCall ?dd (py_dict (zip (requested_derived sp comps) ?us')) tu]"
      by simp
    with calls c2 show ?thesis
      unfolding z by simp
  qed
  from fp folder [unfolded raw_units_explicit] ok out none some show ?thesis
    by blast
qed

lemma derived_entry_full:
  assumes "derived_entry registry sp fp tu n \<noteq> None"
  shows "\<exists>d data req first_req more a md.
        get_definition registry n = Inr d \<and>
        read_particle_data sp fp (species_name sp) (dd_requirements d) = Inr data \<and>
        convert_particle_data_units sp data
          (\<lambda>r. if r \<in> set (dd_requirements d) then Some ''SI'' else None) tu = Inr req \<and>
        snd (fetch_requirements registry sp fp tu n) =
          [ReadCall fp (species_name sp) (dd_requirements d),
           ConvertCall data (\<lambda>r. if r \<in> set (dd_requirements d) then Some ''SI'' else None) tu] \<and>
        dd_requirements d = first_req # more \<and>
        req first_req = Some (a, md) \<and>
        derived_entry registry sp fp tu n =
          Some (dd_recipe d req, md(''units'' \<mapsto> MStr (dd_units d)))"
proof -
  from derived_entry_Some [OF assms] obtain d req first_req more a md where
    d: "get_definition registry n = Inr d"
    and req: "fst (fetch_requirements registry sp fp tu n) = Inr req"
    and reqs: "dd_requirements d = first_req # more"
    and first: "req first_req = Some (a, md)"
    and entry: "derived_entry registry sp fp tu n =
        Some (dd_recipe d req, md(''units'' \<mapsto> MStr (dd_units d)))"
    by (elim exE conjE)
  from fetch_requirements_success [OF req] d obtain data where
    "read_particle_data sp fp (species_name sp) (dd_requirements d) = Inr data"
    "convert_particle_data_units sp data
        (\<lambda>r. if r \<in> set (dd_requirements d) then Some ''SI'' else None) tu = Inr req"
    "snd (fetch_requirements registry sp fp tu n) =
        [ReadCall fp (species_name sp) (dd_requirements d),
         ConvertCall data (\<lambda>r. if r \<in> set (dd_requirements d) then Some ''SI'' else None) tu]"
    by auto
  with d reqs first entry show ?thesis
    by blast
qed

text \<open>
  Claim C3. In every call of \<^verbatim>\<open>get_data\<close> that returns, the calls to the reader and
  the converter are, in this order: those for the raw components; then for every requested
  derived component, in the order of the request, one read of exactly the requirements of
  its definition followed by one conversion of what was read whose target unit is
  \<^verbatim>\<open>'SI'\<close> for every requirement and for nothing else, whatever \<^verbatim>\<open>data_units\<close> the
  caller gave; and last, only when \<^verbatim>\<open>data_units\<close> is given, one conversion with the
  caller's units for the derived components. This last conversion is applied to the
  dictionary that holds, for the derived components and nothing else, the array that the
  recipe made from the requirements in SI units, with the metadata of the first
  requirement under the declared units. What \<^verbatim>\<open>get_data\<close> returns is the data of the
  raw components overlaid with the answer of this last conversion, or with the dictionary
  itself when \<^verbatim>\<open>data_units\<close> is omitted.
\<close>

theorem derived_requirements_in_SI:
  assumes "get_data registry sp time_step components_list data_units time_units = (Inr out, calls)"
  shows "\<exists>file_path folder_data raw_calls fetch_calls derived_dict derived_data.
     get_file_path sp time_step = Inr file_path \<and>
     get_file_data sp file_path (requested_raw sp components_list)
       (case data_units of
          None \<Rightarrow> None
        | Some units \<Rightarrow>
            Some (map snd (filter (\<lambda>(c, u). c \<in> set (components_in_file sp))
                             (zip components_list units))))
       time_units = (Inr folder_data, raw_calls) \<and>
     calls = raw_calls @ concat (map fetch_calls (requested_derived sp components_list)) @
       (case data_units of
          None \<Rightarrow> []
        | Some units \<Rightarrow>
            [ConvertCall derived_dict
               (py_dict (filter (\<lambda>(c, u). c \<notin> set (components_in_file sp))
                           (zip components_list units)))
               time_units]) \<and>
     (\<forall>n\<in>set (requested_derived sp components_list). \<exists>d data req first_req more a md.
        get_definition registry n = Inr d \<and>
        read_particle_data sp file_path (species_name sp) (dd_requirements d) = Inr data \<and>
        convert_particle_data_units sp data
          (\<lambda>r. if r \<in> set (dd_requirements d) then Some ''SI'' else None) time_units = Inr req \<and>
        fetch_calls n =
          [ReadCall file_path (species_name sp) (dd_requirements d),
           ConvertCall data (\<lambda>r. if r \<in> set (dd_requirements d) then Some ''SI'' else None)
             time_units] \<and>
        dd_requirements d = first_req # more \<and>
        req first_req = Some (a, md) \<and>
        derived_dict n = Some (dd_recipe d req, md(''units'' \<mapsto> MStr (dd_units d)))) \<and>
     dom derived_dict = set (requested_derived sp components_list) \<and>
     (data_units = None \<longrightarrow> derived_data = derived_dict) \<and>
     (\<forall>units. data_units = Some units \<longrightarrow>
        convert_particle_data_units sp derived_dict
          (py_dict (filter (\<lambda>(c, u). c \<notin> set (components_in_file sp))
                      (zip components_list units)))
          time_units = Inr derived_data) \<and>
     out = folder_data ++ derived_data"
proof -
  let ?raw_units = "case data_units of
          None \<Rightarrow> None
        | Some units \<Rightarrow>
            Some (map snd (filter (\<lambda>(c, u). c \<in> set (components_in_file sp))
                             (zip components_list units)))"
  from get_data_success [OF assms] obtain fp folder c1 dd derived_out where
    fp: "get_file_path sp time_step = Inr fp"
    and folder: "get_file_data sp fp (requested_raw sp components_list) ?raw_units time_units =
        (Inr folder, c1)"
    and dd: "dd = (\<lambda>k. if k \<in> set (requested_derived sp components_list)
                then derived_entry registry sp fp time_units k else None)"
    and ok: "\<forall>n\<in>set (requested_derived sp components_list).
        derived_entry registry sp fp time_units n \<noteq> None"
    and out: "out = folder ++ derived_out"
    and none: "data_units = None \<longrightarrow> derived_out = dd \<and>
        calls = c1 @ concat (map (\<lambda>n. snd (fetch_requirements registry sp fp time_units n))
                         (requested_derived sp components_list))"
    and some: "\<forall>us. data_units = Some us \<longrightarrow>
        convert_particle_data_units sp dd
          (py_dict (filter (\<lambda>(c, u). c \<notin> set (components_in_file sp))
             (zip components_list us))) time_units = Inr derived_out \<and>
        calls = c1 @ concat (map (\<lambda>n. snd (fetch_requirements registry sp fp time_units n))
                         (requested_derived sp components_list)) @
          [ConvertCall dd
             (py_dict (filter (\<lambda>(c, u). c \<notin> set (components_in_file sp))
                (zip components_list us))) time_units]"
    by (elim exE conjE)
  let ?fetch_calls = "\<lambda>n. snd (fetch_requirements registry sp fp time_units n)"
  have calls: "calls = c1 @
       concat (map ?fetch_calls (requested_derived sp components_list)) @
       (case data_units of
          None \<Rightarrow> []
        | Some units \<Rightarrow>
            [ConvertCall dd
               (py_dict (filter (\<lambda>(c, u). c \<notin> set (components_in_file sp))
                           (zip components_list units)))
               time_units])"
    using none some by (cases data_units) simp_all
  have each: "\<exists>d data req first_req more a md.
        get_definition registry n = Inr d \<and>
        read_particle_data sp fp (species_name sp) (dd_requirements d) = Inr data \<and>
        convert_particle_data_units sp data
          (\<lambda>r. if r \<in> set (dd_requirements d) then Some ''SI'' else None) time_units = Inr req \<and>
        ?fetch_calls n =
          [ReadCall fp (species_name sp) (dd_requirements d),
           ConvertCall data (\<lambda>r. if r \<in> set (dd_requirements d) then Some ''SI'' else None)
             time_units] \<and>
        dd_requirements d = first_req # more \<and>
        req first_req = Some (a, md) \<and>
        dd n = Some (dd_recipe d req, md(''units'' \<mapsto> MStr (dd_units d)))"
    if n: "n \<in> set (requested_derived sp components_list)" for n
  proof -
    from ok n have "derived_entry registry sp fp time_units n \<noteq> None"
      by blast
    from derived_entry_full [OF this] n show ?thesis
      unfolding dd by simp
  qed
  have dom: "dom dd = set (requested_derived sp components_list)"
    using ok unfolding dd by (auto simp: dom_def)
  have a: "derived_out = dd" if "data_units = None"
    using none that by simp
  have b: "convert_particle_data_units sp dd
          (py_dict (filter (\<lambda>(c, u). c \<notin> set (components_in_file sp))
                      (zip components_list units)))
          time_units = Inr derived_out" if "data_units = Some units" for units
    using some that by simp
  show ?thesis
    apply (rule exI [of _ fp])
    apply (rule exI [of _ folder])
    apply (rule exI [of _ c1])
    apply (rule exI [of _ ?fetch_calls])
    apply (rule exI [of _ dd])
    apply (rule exI [of _ derived_out])
    using fp folder calls each dom a b out by blast
qed

text \<open>
  Claim C8, as amended. For a derived component \<open>n\<close> of a call of \<^verbatim>\<open>get_data\<close> that
  returns, let \<open>md\<close> be the metadata of the first requirement of its definition, as
  fetched in SI units. The entry built for \<open>n\<close> is the recipe's array with \<open>md\<close> whose
  \<^verbatim>\<open>'units'\<close> is overwritten by the declared units of the definition, all other keys
  being those of \<open>md\<close>. This entry is what \<^verbatim>\<open>get_data\<close> returns for \<open>n\<close> when
  \<^verbatim>\<open>data_units\<close> is omitted. When \<^verbatim>\<open>data_units\<close> is given, the dictionary with this
  entry is handed to the unit converter in the last call, with the caller's units for the
  derived components, and what \<^verbatim>\<open>get_data\<close> returns for \<open>n\<close> is the entry for \<open>n\<close>
  in the converter's answer (if the answer has none, the entry for \<open>n\<close> in the data read
  for the raw components).
\<close>

theorem derived_metadata_inherited:
  assumes "get_data registry sp time_step components_list data_units time_units = (Inr out, calls)"
    and "n \<in> set components_list"
    and "n \<notin> set (components_in_file sp)"
  shows "\<exists>file_path d req first_req more a md.
     get_file_path sp time_step = Inr file_path \<and>
     get_definition registry n = Inr d \<and>
     dd_requirements d = first_req # more \<and>
     fst (get_file_data sp file_path (dd_requirements d)
            (Some (replicate (length (dd_requirements d)) ''SI'')) time_units) = Inr req \<and>
     req first_req = Some (a, md) \<and>
     (data_units = None \<longrightarrow>
        out n = Some (dd_recipe d req, md(''units'' \<mapsto> MStr (dd_units d)))) \<and>
     (\<forall>units. data_units = Some units \<longrightarrow>
        (\<exists>folder_data derived_dict derived_data.
           fst (get_file_data sp file_path (requested_raw sp components_list)
                  (Some (map snd (filter (\<lambda>(c, u). c \<in> set (components_in_file sp))
                                    (zip components_list units))))
                  time_units) = Inr folder_data \<and>
           last calls =
             ConvertCall derived_dict
               (py_dict (filter (\<lambda>(c, u). c \<notin> set (components_in_file sp))
                           (zip components_list units)))
               time_units \<and>
           derived_dict n = Some (dd_recipe d req, md(''units'' \<mapsto> MStr (dd_units d))) \<and>
           convert_particle_data_units sp derived_dict
             (py_dict (filter (\<lambda>(c, u). c \<notin> set (components_in_file sp))
                         (zip components_list units)))
             time_units = Inr derived_data \<and>
           out = folder_data ++ derived_data \<and>
           out n = (case derived_data n of Some entry \<Rightarrow> Some entry | None \<Rightarrow> folder_data n)))"
proof -
  from get_data_success [OF assms(1)] obtain fp folder c1 dd derived_out where
    fp: "get_file_path sp time_step = Inr fp"
    and folder: "get_file_data sp fp (requested_raw sp components_list)
       (case data_units of
          None \<Rightarrow> None
        | Some us \<Rightarrow>
            Some (map snd (filter (\<lambda>(c, u). c \<in> set (components_in_file sp))
                    (zip components_list us))))
       time_units = (Inr folder, c1)"
    and dd: "dd = (\<lambda>k. if k \<in> set (requested_derived sp components_list)
                then derived_entry registry sp fp time_units k else None)"
    and ok: "\<forall>n\<in>set (requested_derived sp components_list).
        derived_entry registry sp fp time_units n \<noteq> None"
    and out: "out = folder ++ derived_out"
    and none: "data_units = None \<longrightarrow> derived_out = dd \<and>
        calls = c1 @ concat (map (\<lambda>n. snd (fetch_requirements registry sp fp time_units n))
                         (requested_derived sp components_list))"
    and some: "\<forall>us. data_units = Some us \<longrightarrow>
        convert_particle_data_units sp dd
          (py_dict (filter (\<lambda>(c, u). c \<notin> set (components_in_file sp))
             (zip components_list us))) time_units = Inr derived_out \<and>
        calls = c1 @ concat (map (\<lambda>n. snd (fetch_requirements registry sp fp time_units n))
                         (requested_derived sp components_list)) @
          [ConvertCall dd
             (py_dict (filter (\<lambda>(c, u). c \<notin> set (components_in_file sp))
                (zip components_list us))) time_units]"
    by (elim exE conjE)
  have n: "n \<in> set (requested_derived sp components_list)"
    using assms(2,3) by (simp add: requested_derived_def)
  with ok have "derived_entry registry sp fp time_units n \<noteq> None"
    by blast
  from derived_entry_Some [OF this] obtain d req first_req more a md where
    d: "get_definition registry n = Inr d"
    and req: "fst (fetch_requirements registry sp fp time_units n) = Inr req"
    and reqs: "dd_requirements d = first_req # more"
    and first: "req first_req = Some (a, md)"
    and entry: "derived_entry registry sp fp time_units n =
        Some (dd_recipe d req, md(''units'' \<mapsto> MStr (dd_units d)))"
    by (elim exE conjE)
  have req': "fst (get_file_data sp fp (dd_requirements d)
            (Some (replicate (length (dd_requirements d)) ''SI'')) time_units) = Inr req"
    using req by (simp add: fetch_requirements_def d)
  have ddn: "dd n = Some (dd_recipe d req, md(''units'' \<mapsto> MStr (dd_units d)))"
    using n entry by (simp add: dd)
  have a: "out n = Some (dd_recipe d req, md(''units'' \<mapsto> MStr (dd_units d)))"
    if "data_units = None"
    using that none out ddn by (simp add: map_add_def)
  have b: "\<exists>folder_data derived_dict derived_data.
           fst (get_file_data sp fp (requested_raw sp components_list)
                  (Some (map snd (filter (\<lambda>(c, u). c \<in> set (components_in_file sp))
                                    (zip components_list units))))
                  time_units) = Inr folder_data \<and>
           last calls =
             ConvertCall derived_dict
               (py_dict (filter (\<lambda>(c, u). c \<notin> set (components_in_file sp))
                           (zip components_list units)))
               time_units \<and>
           derived_dict n = Some (dd_recipe d req, md(''units'' \<mapsto> MStr (dd_units d))) \<and>
           convert_particle_data_units sp derived_dict
             (py_dict (filter (\<lambda>(c, u). c \<notin> set (components_in_file sp))
                         (zip components_list units)))
             time_units = Inr derived_data \<and>
           out = folder_data ++ derived_data \<and>
           out n = (case derived_data n of Some entry \<Rightarrow> Some entry | None \<Rightarrow> folder_data n)"
    if du: "data_units = Some units" for units
  proof -
    from some du have conv: "convert_particle_data_units sp dd
          (py_dict (filter (\<lambda>(c, u). c \<notin> set (components_in_file sp))
             (zip components_list units))) time_units = Inr derived_out"
      and last: "last calls = ConvertCall dd
             (py_dict (filter (\<lambda>(c, u). c \<notin> set (components_in_file sp))
                (zip components_list units))) time_units"
      by simp_all
    have f: "fst (get_file_data sp fp (requested_raw sp components_list)
                  (Some (map snd (filter (\<lambda>(c, u). c \<in> set (components_in_file sp))
                                    (zip components_list units))))
                  time_units) = Inr folder"
      using folder unfolding du by simp
    have o: "out n = (case derived_out n of Some entry \<Rightarrow> Some entry | None \<Rightarrow> folder n)"
      unfolding out by (simp add: map_add_def)
    from f last ddn conv out o show ?thesis
      by blast
  qed
  from fp d reqs req' first a b show ?thesis
    by blast
qed

lemmas demo_eval =
  get_data_def get_file_path_def get_file_data_def bind_logged_def convert_data_units_def
  calculate_derived_data_def append_unit_def units_result_def py_dict_def Let_def
  demo_species_simps demo_registry_def demo_reader_def demo_converter_def demo_recipe_def

lemma demo_definition:
  "get_definition demo_registry ''x_prime'' = Inr d \<Longrightarrow>
   dd_requirements d = [''px'', ''pz''] \<and> dd_units d = ''rad''"
  by (auto simp: demo_registry_def)

lemma demo_run_units:
  "\<exists>out calls. get_data demo_registry demo_species 10 [''px'', ''x_prime'']
       (Some [''SI'', ''mrad'']) None = (Inr out, calls)"
  by (simp add: demo_eval)

lemma demo_run_plain:
  "\<exists>out calls. get_data demo_registry demo_species 10 [''px'', ''x_prime'']
       None None = (Inr out, calls)"
  by (simp add: demo_eval)



lemma demo_converter_units:
  assumes "demo_converter data targets tu = Inr converted"
    and "data c = Some (x, md)" and "targets c = Some u"
  shows "converted c = Some (1000 * x, md(''units'' \<mapsto> MStr u))"
  using assms by (auto simp: demo_converter_def)

theorem derived_requirements_in_SI_witness:
  "\<exists>out calls.
     get_data demo_registry demo_species 10 [''px'', ''x_prime''] (Some [''SI'', ''mrad'']) None =
       (Inr out, calls) \<and>
     ReadCall ''e_000010.h5'' ''electrons'' [''px'', ''pz''] \<in> set calls \<and>
     result_units (Inr out) ''x_prime'' = Some (MStr ''mrad'')"
proof -
  from demo_run_units obtain out calls where run:
    "get_data demo_registry demo_species 10 [''px'', ''x_prime''] (Some [''SI'', ''mrad'']) None =
       (Inr out, calls)"
    by (elim exE)
  have fp: "get_file_path demo_species 10 = Inr ''e_000010.h5''"
    by (simp add: get_file_path_def demo_species_simps)
  have der: "requested_derived demo_species [''px'', ''x_prime''] = [''x_prime'']"
    by (simp add: requested_derived_def demo_species_simps)
  have target: "py_dict (filter (\<lambda>(c, u). c \<notin> set (components_in_file demo_species))
      (zip [''px'', ''x_prime''] [''SI'', ''mrad''])) ''x_prime'' = Some ''mrad''"
    by (simp add: py_dict_def demo_species_simps)
  from derived_requirements_in_SI [OF run]
  obtain file_path folder_data raw_calls fetch_calls derived_dict derived_data where
    path: "get_file_path demo_species 10 = Inr file_path"
    and calls: "calls = raw_calls @
        concat (map fetch_calls (requested_derived demo_species [''px'', ''x_prime''])) @
        (case Some [''SI'', ''mrad''] of
          None \<Rightarrow> []
        | Some units \<Rightarrow>
            [ConvertCall derived_dict
               (py_dict (filter (\<lambda>(c, u). c \<notin> set (components_in_file demo_species))
                           (zip [''px'', ''x_prime''] units)))
               None])"
    and each: "\<forall>n\<in>set (requested_derived demo_species [''px'', ''x_prime'']).
        \<exists>d data req first_req more a md. get_definition demo_registry n = Inr d \<and>
          read_particle_data demo_species file_path (species_name demo_species)
            (dd_requirements d) = Inr data \<and>
          convert_particle_data_units demo_species data
            (\<lambda>r. if r \<in> set (dd_requirements d) then Some ''SI'' else None) None = Inr req \<and>
          fetch_calls n =
            [ReadCall file_path (species_name demo_species) (dd_requirements d),
             ConvertCall data (\<lambda>r. if r \<in> set (dd_requirements d) then Some ''SI'' else None)
               None] \<and>
          dd_requirements d = first_req # more \<and>
          req first_req = Some (a, md) \<and>
          derived_dict n = Some (dd_recipe d req, md(''units'' \<mapsto> MStr (dd_units d)))"
    and conv: "\<forall>units. Some [''SI'', ''mrad''] = Some units \<longrightarrow>
        convert_particle_data_units demo_species derived_dict
          (py_dict (filter (\<lambda>(c, u). c \<notin> set (components_in_file demo_species))
                      (zip [''px'', ''x_prime''] units)))
          None = Inr derived_data"
    and out: "out = folder_data ++ derived_data"
    by (elim exE conjE)
  have "''x_prime'' \<in> set (requested_derived demo_species [''px'', ''x_prime''])"
    by (simp only: der) simp
  with each obtain d data req md where
    d: "get_definition demo_registry ''x_prime'' = Inr d"
    and fc: "fetch_calls ''x_prime'' =
            [ReadCall file_path (species_name demo_species) (dd_requirements d),
             ConvertCall data (\<lambda>r. if r \<in> set (dd_requirements d) then Some ''SI'' else None)
               None]"
    and entry: "derived_dict ''x_prime'' =
        Some (dd_recipe d req, md(''units'' \<mapsto> MStr (dd_units d)))"
    by blast
  from path fp have "file_path = ''e_000010.h5''"
    by simp
  with fc demo_definition [OF d]
  have "ReadCall ''e_000010.h5'' ''electrons'' [''px'', ''pz''] \<in> set (fetch_calls ''x_prime'')"
    by (simp add: demo_species_simps)
  with calls have read: "ReadCall ''e_000010.h5'' ''electrons'' [''px'', ''pz''] \<in> set calls"
    unfolding der by simp
  from conv have "demo_converter derived_dict
          (py_dict (filter (\<lambda>(c, u). c \<notin> set (components_in_file demo_species))
                      (zip [''px'', ''x_prime''] [''SI'', ''mrad''])))
          None = Inr derived_data"
    by (simp add: demo_species_simps)
  from demo_converter_units [OF this entry target]
  have "derived_data ''x_prime'' =
      Some (1000 * dd_recipe d req,
            (md(''units'' \<mapsto> MStr (dd_units d)))(''units'' \<mapsto> MStr ''mrad''))" .
  then have "result_units (Inr out) ''x_prime'' = Some (MStr ''mrad'')"
    unfolding out by (simp add: result_units_def map_add_def)
  with run read show ?thesis
    by blast
qed

theorem derived_metadata_inherited_witness:
  "\<exists>out calls.
     get_data demo_registry demo_species 10 [''px'', ''x_prime''] None None = (Inr out, calls) \<and>
     result_units (Inr out) ''x_prime'' = Some (MStr ''rad'')"
proof -
  from demo_run_plain obtain out calls where run:
    "get_data demo_registry demo_species 10 [''px'', ''x_prime''] None None = (Inr out, calls)"
    by (elim exE)
  have a: "''x_prime'' \<in> set [''px'', ''x_prime'']"
    and b: "''x_prime'' \<notin> set (components_in_file demo_species)"
    by (simp_all add: demo_species_simps)
  from derived_metadata_inherited [OF run a b] obtain d req md where
    d: "get_definition demo_registry ''x_prime'' = Inr d"
    and out: "(None :: string list option) = None \<longrightarrow>
        out ''x_prime'' = Some (dd_recipe d req, md(''units'' \<mapsto> MStr (dd_units d)))"
    by (elim exE conjE)
  from out demo_definition [OF d]
  have "result_units (Inr out) ''x_prime'' = Some (MStr ''rad'')"
    by (simp add: result_units_def)
  with run show ?thesis
    by blast
qed

text \<open>
  The claim C8 as it was stated fails when the caller gives \<^verbatim>\<open>data_units\<close>: the derived
  entry goes through the unit converter, and a converter that records the target unit in
  the metadata returns \<^verbatim>\<open>'mrad'\<close> where the definition declares \<^verbatim>\<open>'rad'\<close>.
\<close>

theorem converted_metadata_counterexample:
  "result_units
     (fst (get_data demo_registry demo_species 10 [''x_prime''] (Some [''mrad'']) None))
     ''x_prime'' = Some (MStr ''mrad'') \<and>
   map_sum id dd_units (get_definition demo_registry ''x_prime'') = Inr ''rad''"
  by (simp add: demo_eval result_units_def)

end
